theory Spec2Isabelle
  imports Main
begin

section \<open>Data model\<close>

text \<open>
  The service of \<^verbatim>\<open>src/index.ts\<close> keeps one SQLite table:
  \<^verbatim>\<open>
  CREATE TABLE IF NOT EXISTS utilisateurs (
    id INTEGER PRIMARY KEY AUTOINCREMENT,
    nomutilisateur TEXT UNIQUE NOT NULL,
    motdepasse TEXT NOT NULL,
    email TEXT UNIQUE NOT NULL)
  \<close>
  A row is the interface \<open>Utilisateur\<close>. The field \<open>id\<close> is named \<open>id_u\<close> here,
  since \<open>id\<close> is the identity function of HOL.
\<close>

record utilisateur =
  id_u :: int
  nomutilisateur :: string
  motdepasse :: string
  email :: string

text \<open>
  The table is the list of its rows in the order of the table's B-tree, together with the
  counter that \<open>AUTOINCREMENT\<close> keeps in \<open>sqlite_sequence\<close> (the largest row id
  ever used).
\<close>

record base =
  lignes :: "utilisateur list"
  seq :: int

definition base_vide :: base where
  "base_vide = \<lparr>lignes = [], seq = 0\<rparr>"

text \<open>
  A request body, \<open>Partial<Omit<Utilisateur, "id">>\<close>: every field is a string or
  \<open>undefined\<close>.
\<close>

record corps =
  c_nomutilisateur :: "string option"
  c_motdepasse :: "string option"
  c_email :: "string option"

text \<open>
  JavaScript truthiness of a value of type \<open>string | undefined\<close>: \<open>undefined\<close> and
  the empty string are falsy.
\<close>

fun truthy :: "string option \<Rightarrow> bool" where
  "truthy None = False"
| "truthy (Some s) = (s \<noteq> [])"

text \<open>The string of a field that has been tested truthy.\<close>

fun chaine :: "string option \<Rightarrow> string" where
  "chaine None = []"
| "chaine (Some s) = s"

text \<open>
  JSON values of the response bodies, and a response: its status and its body. A number
  is a JavaScript number, a double; the ones of this service have integer values.
\<close>

datatype json =
  JNum int
| JStr string
| JObj "(string \<times> json) list"
| JArr "json list"

datatype reponse = Reponse (status: nat) (contenu: json)

definition erreur :: "string \<Rightarrow> json" where
  "erreur m = JObj [(''erreur'', JStr m)]"

definition message :: "string \<Rightarrow> json" where
  "message m = JObj [(''message'', JStr m)]"

text \<open>The keys of a JSON object, in order (\<open>Object.keys\<close>).\<close>

fun cles :: "json \<Rightarrow> string list" where
  "cles (JObj kvs) = map fst kvs"
| "cles _ = []"

section \<open>The libraries the service calls\<close>

subsection \<open>argon2\<close>

text \<open>
  \<open>argon2.hash\<close> draws a fresh salt on every call; the salt is an argument here, so that
  two calls on one secret can give two tokens. Both functions can throw: \<open>None\<close>.
\<close>

record argon2 =
  hash :: "string \<Rightarrow> string \<Rightarrow> string option"
  verify :: "string \<Rightarrow> string \<Rightarrow> bool option"

text \<open>
  The contract of the library: a token verifies exactly the secret it was made from.
\<close>

definition argon2_correct :: "argon2 \<Rightarrow> bool" where
  "argon2_correct a =
     (\<forall>sel s h c. hash a sel s = Some h \<longrightarrow> verify a h c = Some (c = s))"

text \<open>A small instance of the contract, to evaluate the handlers on.\<close>

definition argon2_jouet :: argon2 where
  "argon2_jouet =
     \<lparr>hash = (\<lambda>sel s. Some (''$argon2id$'' @ s)),
      verify = (\<lambda>h c. Some (h = ''$argon2id$'' @ c))\<rparr>"

text \<open>A hasher out of memory: \<open>hash\<close> throws.\<close>

definition argon2_en_panne :: argon2 where
  "argon2_en_panne = \<lparr>hash = (\<lambda>sel s. None), verify = (\<lambda>h c. None)\<rparr>"

subsection \<open>better-sqlite3\<close>

text \<open>
  Each prepared statement of the source is a function on the table. A statement that
  throws returns \<open>Inl\<close> and leaves the table as it was (SQLite aborts the statement).
\<close>

datatype sqlite_erreur = SQLITE_CONSTRAINT | SQLITE_FULL | SQLITE_ERROR

text \<open>The columns an \<open>UPDATE\<close> can set, and one assignment \<open>col = ?\<close> on a row.\<close>

datatype colonne = Nomutilisateur | Motdepasse | Email

fun affecter :: "colonne \<times> string \<Rightarrow> utilisateur \<Rightarrow> utilisateur" where
  "affecter (Nomutilisateur, v) r = r\<lparr>nomutilisateur := v\<rparr>"
| "affecter (Motdepasse, v) r = r\<lparr>motdepasse := v\<rparr>"
| "affecter (Email, v) r = r\<lparr>email := v\<rparr>"

definition appliquer :: "(colonne \<times> string) list \<Rightarrow> utilisateur \<Rightarrow> utilisateur" where
  "appliquer updates r = fold affecter updates r"

text \<open>
  \<open>INSERT INTO utilisateurs (nomutilisateur, motdepasse, email) VALUES (?, ?, ?)\<close>.
  The new row id is one more than the largest id ever used; the statement fails when
  that id has reached \<open>2^63 - 1\<close>, and when the name or the email is already in the table.
  It returns \<open>lastInsertRowid\<close> and the new table.
\<close>

definition prochain_id :: "base \<Rightarrow> int" where
  "prochain_id bdd = fold max (map id_u (lignes bdd)) (seq bdd) + 1"

definition run_insert ::
  "base \<Rightarrow> string \<Rightarrow> string \<Rightarrow> string \<Rightarrow> sqlite_erreur + (int \<times> base)" where
  "run_insert bdd n m e =
     (if prochain_id bdd > 9223372036854775807 then Inl SQLITE_FULL
      else if \<exists>r \<in> set (lignes bdd). nomutilisateur r = n \<or> email r = e
        then Inl SQLITE_CONSTRAINT
      else Inr (prochain_id bdd,
        \<lparr>lignes = lignes bdd @
            [\<lparr>id_u = prochain_id bdd, nomutilisateur = n, motdepasse = m, email = e\<rparr>],
         seq = prochain_id bdd\<rparr>))"

text \<open>
  \<open>UPDATE utilisateurs SET col = ?, ... WHERE id = ?\<close>, the column list built from the
  keys of \<open>updates\<close>. An empty list is a syntax error at \<open>prepare\<close>. The statement
  fails when a row it changes would take the name or the email of another row; it
  returns \<open>changes\<close> and the new table.
\<close>

definition conflit :: "base \<Rightarrow> (colonne \<times> string) list \<Rightarrow> int \<Rightarrow> bool" where
  "conflit bdd updates i =
     (\<exists>r \<in> set (lignes bdd). id_u r = i \<and>
        (\<exists>r2 \<in> set (lignes bdd). id_u r2 \<noteq> i \<and>
           ((Nomutilisateur \<in> fst ` set updates \<and>
               nomutilisateur r2 = nomutilisateur (appliquer updates r)) \<or>
            (Email \<in> fst ` set updates \<and> email r2 = email (appliquer updates r)))))"

definition run_update ::
  "base \<Rightarrow> (colonne \<times> string) list \<Rightarrow> int \<Rightarrow> sqlite_erreur + (nat \<times> base)" where
  "run_update bdd updates i =
     (if updates = [] then Inl SQLITE_ERROR
      else if conflit bdd updates i then Inl SQLITE_CONSTRAINT
      else Inr (length (filter (\<lambda>r. id_u r = i) (lignes bdd)),
        bdd\<lparr>lignes := map (\<lambda>r. if id_u r = i then appliquer updates r else r) (lignes bdd)\<rparr>))"

text \<open>\<open>DELETE FROM utilisateurs WHERE id = ?\<close>: \<open>changes\<close> and the new table.\<close>

definition run_delete :: "base \<Rightarrow> int \<Rightarrow> sqlite_erreur + (nat \<times> base)" where
  "run_delete bdd i =
     Inr (length (filter (\<lambda>r. id_u r = i) (lignes bdd)),
       bdd\<lparr>lignes := filter (\<lambda>r. id_u r \<noteq> i) (lignes bdd)\<rparr>)"

text \<open>
  The library hands a 64-bit integer of the table to JavaScript as a number: the
  nearest double, ties to the even significand. \<open>pas m\<close> is the distance between the
  doubles around \<open>m \<ge> 0\<close> (1 below \<open>2^53\<close>, doubling with every further bit), and
  \<open>arrondi u m\<close> the multiple of \<open>u\<close> nearest to \<open>m\<close>.
\<close>

function pas :: "int \<Rightarrow> int" where
  "pas m = (if m < 9007199254740992 then 1 else 2 * pas (m div 2))"
  by pat_completeness auto
termination
  by (relation "measure nat") auto

declare pas.simps [simp del]

definition arrondi :: "int \<Rightarrow> int \<Rightarrow> int" where
  "arrondi u m =
     (let q = m div u; r = m mod u
      in if 2 * r < u then q * u
         else if 2 * r > u then (q + 1) * u
         else if even q then q * u else (q + 1) * u)"

definition vers_double :: "int \<Rightarrow> int" where
  "vers_double k = (if k < 0 then - arrondi (pas (- k)) (- k) else arrondi (pas k) k)"

text \<open>
  \<open>SELECT id, nomutilisateur, email FROM utilisateurs\<close>: one object per row, with the
  three selected columns, the id as a number. The statement has no \<open>ORDER BY\<close>; no
  index holds the three columns, so SQLite scans the table, and the rows come in the
  order of the B-tree.
\<close>

definition select_id_nom_email :: "utilisateur \<Rightarrow> json" where
  "select_id_nom_email r =
     JObj [(''id'', JNum (vers_double (id_u r))), (''nomutilisateur'', JStr (nomutilisateur r)),
           (''email'', JStr (email r))]"

definition all_select :: "base \<Rightarrow> sqlite_erreur + json list" where
  "all_select bdd = Inr (map select_id_nom_email (lignes bdd))"

text \<open>\<open>SELECT id, nomutilisateur, email FROM utilisateurs WHERE id = ?\<close>, read with \<open>get\<close>.\<close>

definition get_select :: "base \<Rightarrow> int \<Rightarrow> sqlite_erreur + json option" where
  "get_select bdd i =
     Inr (map_option select_id_nom_email (find (\<lambda>r. id_u r = i) (lignes bdd)))"

text \<open>\<open>SELECT motdepasse FROM utilisateurs WHERE nomutilisateur = ?\<close>, read with \<open>get\<close>.\<close>

definition get_motdepasse :: "base \<Rightarrow> string \<Rightarrow> sqlite_erreur + string option" where
  "get_motdepasse bdd n =
     Inr (map_option motdepasse (find (\<lambda>r. nomutilisateur r = n) (lignes bdd)))"

section \<open>The handlers of \<^verbatim>\<open>src/index.ts\<close>\<close>

text \<open>
  A handler takes the table (and the library, the salt of this call and the request) and
  returns the response with the table after the call. The messages are written without
  their accents. The path parameter \<open>:id\<close> is the integer that SQLite compares with
  the column \<open>id\<close>; \<open>result.lastInsertRowid\<close> is the row id as a number.
\<close>

definition tous_requis :: reponse where
  "tous_requis = Reponse 400 (erreur ''Tous les champs sont requis'')"

text \<open>The middleware: \<open>Some\<close> is its answer, \<open>None\<close> the call of \<open>next()\<close>.\<close>

definition validateUserInput :: "corps \<Rightarrow> reponse option" where
  "validateUserInput b =
     (if \<not> truthy (c_nomutilisateur b) \<or> \<not> truthy (c_motdepasse b) \<or> \<not> truthy (c_email b)
      then Some tous_requis
      else None)"

definition erreur_creation :: reponse where
  "erreur_creation = Reponse 400 (erreur ''Erreur lors de la creation de l'utilisateur'')"

definition post_utilisateurs :: "argon2 \<Rightarrow> string \<Rightarrow> base \<Rightarrow> corps \<Rightarrow> reponse \<times> base" where
  "post_utilisateurs a sel bdd b =
     (case validateUserInput b of
        Some r \<Rightarrow> (r, bdd)
      | None \<Rightarrow>
         (case hash a sel (chaine (c_motdepasse b)) of
            None \<Rightarrow> (erreur_creation, bdd)
          | Some motdepasse_hashed \<Rightarrow>
             (case run_insert bdd (chaine (c_nomutilisateur b)) motdepasse_hashed
                     (chaine (c_email b)) of
                Inl _ \<Rightarrow> (erreur_creation, bdd)
              | Inr (lastInsertRowid, bdd') \<Rightarrow>
                 (Reponse 201
                    (JObj [(''id'', JNum (vers_double lastInsertRowid)),
                           (''nomutilisateur'', JStr (chaine (c_nomutilisateur b))),
                           (''email'', JStr (chaine (c_email b)))]),
                  bdd'))))"

definition get_utilisateurs :: "base \<Rightarrow> reponse" where
  "get_utilisateurs bdd =
     (case all_select bdd of
        Inl _ \<Rightarrow> Reponse 500 (erreur ''Erreur lors de la recuperation des utilisateurs'')
      | Inr utilisateurs \<Rightarrow> Reponse 200 (JArr utilisateurs))"

definition non_trouve :: reponse where
  "non_trouve = Reponse 404 (erreur ''Utilisateur non trouve'')"

definition get_utilisateur :: "base \<Rightarrow> int \<Rightarrow> reponse" where
  "get_utilisateur bdd i =
     (case get_select bdd i of
        Inl _ \<Rightarrow> Reponse 500 (erreur ''Erreur lors de la recuperation de l'utilisateur'')
      | Inr None \<Rightarrow> non_trouve
      | Inr (Some user) \<Rightarrow> Reponse 200 user)"

text \<open>
  \<open>PUT /utilisateurs/:id\<close>. The object \<open>updates\<close> has one key for each truthy field, in
  the order name, password, email; the password is hashed while the object is built, and
  a hasher that throws ends the handler in its \<open>catch\<close>.
\<close>

definition construire_updates ::
  "argon2 \<Rightarrow> string \<Rightarrow> corps \<Rightarrow> (colonne \<times> string) list option" where
  "construire_updates a sel b =
     (let debut = (if truthy (c_nomutilisateur b)
                   then [(Nomutilisateur, chaine (c_nomutilisateur b))] else []);
          fin = (if truthy (c_email b) then [(Email, chaine (c_email b))] else [])
      in if truthy (c_motdepasse b)
         then (case hash a sel (chaine (c_motdepasse b)) of
                 None \<Rightarrow> None
               | Some h \<Rightarrow> Some (debut @ [(Motdepasse, h)] @ fin))
         else Some (debut @ fin))"

definition champ_requis :: reponse where
  "champ_requis =
     Reponse 400 (erreur
       ''Au moins un champ doit etre fourni (nomutilisateur, motdepasse, ou email)'')"

definition erreur_mise_a_jour :: reponse where
  "erreur_mise_a_jour =
     Reponse 400 (erreur ''Erreur lors de la mise a jour de l'utilisateur'')"

definition mis_a_jour :: reponse where
  "mis_a_jour = Reponse 200 (message ''Utilisateur mis a jour avec succes'')"

definition put_utilisateur ::
  "argon2 \<Rightarrow> string \<Rightarrow> base \<Rightarrow> int \<Rightarrow> corps \<Rightarrow> reponse \<times> base" where
  "put_utilisateur a sel bdd i b =
     (if \<not> truthy (c_nomutilisateur b) \<and> \<not> truthy (c_motdepasse b) \<and> \<not> truthy (c_email b)
      then (champ_requis, bdd)
      else
        (case construire_updates a sel b of
           None \<Rightarrow> (erreur_mise_a_jour, bdd)
         | Some updates \<Rightarrow>
            (case run_update bdd updates i of
               Inl _ \<Rightarrow> (erreur_mise_a_jour, bdd)
             | Inr (changes, bdd') \<Rightarrow>
                (if changes = 0 then (non_trouve, bdd') else (mis_a_jour, bdd')))))"

definition supprime :: reponse where
  "supprime = Reponse 200 (message ''Utilisateur supprime avec succes'')"

definition delete_utilisateur :: "base \<Rightarrow> int \<Rightarrow> reponse \<times> base" where
  "delete_utilisateur bdd i =
     (case run_delete bdd i of
        Inl _ \<Rightarrow> (Reponse 500 (erreur ''Erreur lors de la suppression de l'utilisateur''), bdd)
      | Inr (changes, bdd') \<Rightarrow>
         (if changes = 0 then (non_trouve, bdd') else (supprime, bdd')))"

text \<open>
  \<open>POST /verifier-motdepasse\<close>. The body is read as the two strings it is meant to
  carry; its field \<open>email\<close> is not read.
\<close>

definition mot_de_passe_correct :: reponse where
  "mot_de_passe_correct = Reponse 200 (message ''Mot de passe correct !'')"

definition mot_de_passe_incorrect :: reponse where
  "mot_de_passe_incorrect = Reponse 401 (erreur ''Mot de passe incorrect, desole'')"

definition erreur_verification :: reponse where
  "erreur_verification =
     Reponse 500 (erreur ''Erreur lors de la verification du mot de passe'')"

definition post_verifier_motdepasse :: "argon2 \<Rightarrow> base \<Rightarrow> corps \<Rightarrow> reponse" where
  "post_verifier_motdepasse a bdd b =
     (if \<not> truthy (c_nomutilisateur b) \<or> \<not> truthy (c_motdepasse b)
      then Reponse 400 (erreur ''Nom d'utilisateur et mot de passe requis'')
      else
        (case get_motdepasse bdd (chaine (c_nomutilisateur b)) of
           Inl _ \<Rightarrow> erreur_verification
         | Inr None \<Rightarrow> non_trouve
         | Inr (Some h) \<Rightarrow>
            (case verify a h (chaine (c_motdepasse b)) of
               None \<Rightarrow> erreur_verification
             | Some motdepasseValide \<Rightarrow>
                (if motdepasseValide then mot_de_passe_correct
                 else mot_de_passe_incorrect))))"

section \<open>The second variant of the update handler\<close>

text \<open>
  The other copy of the service (\<^verbatim>\<open>src/unnamed/part_000\<close>) differs in its update
  handler: it runs \<open>validateUserInput\<close> first and always sets the three columns. Its
  error bodies have the key \<open>error\<close>.
\<close>

definition error_obj :: "string \<Rightarrow> json" where
  "error_obj m = JObj [(''error'', JStr m)]"

definition tous_requis_variante :: reponse where
  "tous_requis_variante = Reponse 400 (error_obj ''Tous les champs sont requis'')"

definition validateUserInput_variante :: "corps \<Rightarrow> reponse option" where
  "validateUserInput_variante b =
     (if \<not> truthy (c_nomutilisateur b) \<or> \<not> truthy (c_motdepasse b) \<or> \<not> truthy (c_email b)
      then Some tous_requis_variante
      else None)"

definition non_trouve_variante :: reponse where
  "non_trouve_variante = Reponse 404 (error_obj ''Utilisateur non trouve'')"

definition erreur_mise_a_jour_variante :: reponse where
  "erreur_mise_a_jour_variante =
     Reponse 400 (error_obj ''Erreur lors de la mise a jour de l'utilisateur'')"

definition put_utilisateur_complet ::
  "argon2 \<Rightarrow> string \<Rightarrow> base \<Rightarrow> int \<Rightarrow> corps \<Rightarrow> reponse \<times> base" where
  "put_utilisateur_complet a sel bdd i b =
     (case validateUserInput_variante b of
        Some r \<Rightarrow> (r, bdd)
      | None \<Rightarrow>
         (case hash a sel (chaine (c_motdepasse b)) of
            None \<Rightarrow> (erreur_mise_a_jour_variante, bdd)
          | Some motdepasse_hashed \<Rightarrow>
             (case run_update bdd
                     [(Nomutilisateur, chaine (c_nomutilisateur b)),
                      (Motdepasse, motdepasse_hashed),
                      (Email, chaine (c_email b))] i of
                Inl _ \<Rightarrow> (erreur_mise_a_jour_variante, bdd)
              | Inr (changes, bdd') \<Rightarrow>
                 (if changes = 0 then (non_trouve_variante, bdd') else (mis_a_jour, bdd')))))"

section \<open>The invariant of the table\<close>

text \<open>
  The primary key orders the B-tree and is at most the counter; names and emails are
  unique.
\<close>

definition bdd_valide :: "base \<Rightarrow> bool" where
  "bdd_valide bdd =
     (sorted_wrt (<) (map id_u (lignes bdd)) \<and>
      (\<forall>r \<in> set (lignes bdd). id_u r \<le> seq bdd) \<and>
      distinct (map nomutilisateur (lignes bdd)) \<and>
      distinct (map email (lignes bdd)))"

section \<open>Example data\<close>

text \<open>
  The account of the scenario: \<open>alice\<close>, secret \<open>p@ss1\<close>, email \<open>a@x.io\<close>, created
  first in an empty table with the small hasher above; and some request bodies.
\<close>

definition alice :: utilisateur where
  "alice = \<lparr>id_u = 1, nomutilisateur = ''alice'', motdepasse = ''$argon2id$p@ss1'',
             email = ''a@x.io''\<rparr>"

definition bdd_alice :: base where
  "bdd_alice = \<lparr>lignes = [alice], seq = 1\<rparr>"

definition bob :: utilisateur where
  "bob = \<lparr>id_u = 2, nomutilisateur = ''bob'', motdepasse = ''$argon2id$hunter2'',
           email = ''b@x.io''\<rparr>"

definition bdd_alice_bob :: base where
  "bdd_alice_bob = \<lparr>lignes = [alice, bob], seq = 2\<rparr>"

definition corps_bob_creation :: corps where
  "corps_bob_creation = \<lparr>c_nomutilisateur = Some ''bob'', c_motdepasse = Some ''hunter2'',
                          c_email = Some ''b@x.io''\<rparr>"

definition corps_nom_bob :: corps where
  "corps_nom_bob = \<lparr>c_nomutilisateur = Some ''bob'', c_motdepasse = None, c_email = None\<rparr>"

definition corps_alice2 :: corps where
  "corps_alice2 = \<lparr>c_nomutilisateur = Some ''alice2'', c_motdepasse = Some ''s3cret'',
                    c_email = Some ''a2@x.io''\<rparr>"

definition corps_alice :: corps where
  "corps_alice = \<lparr>c_nomutilisateur = Some ''alice'', c_motdepasse = Some ''p@ss1'',
                   c_email = Some ''a@x.io''\<rparr>"

definition corps_alice_faux :: corps where
  "corps_alice_faux = \<lparr>c_nomutilisateur = Some ''alice'', c_motdepasse = Some ''wrong'',
                        c_email = None\<rparr>"

definition corps_bob :: corps where
  "corps_bob = \<lparr>c_nomutilisateur = Some ''bob'', c_motdepasse = Some ''p@ss1'',
                 c_email = None\<rparr>"

definition corps_secret :: corps where
  "corps_secret = \<lparr>c_nomutilisateur = None, c_motdepasse = Some ''s3cret'', c_email = None\<rparr>"

definition corps_email :: corps where
  "corps_email = \<lparr>c_nomutilisateur = None, c_motdepasse = None, c_email = Some ''new@x''\<rparr>"

definition corps_nom_vide :: corps where
  "corps_nom_vide = \<lparr>c_nomutilisateur = Some [], c_motdepasse = None, c_email = None\<rparr>"

definition corps_nom_vide_email :: corps where
  "corps_nom_vide_email =
     \<lparr>c_nomutilisateur = Some [], c_motdepasse = None, c_email = Some ''new@x''\<rparr>"

section \<open>Notions the properties are stated with\<close>

text \<open>The field of a request that goes to a column.\<close>

fun champ :: "corps \<Rightarrow> colonne \<Rightarrow> string option" where
  "champ b Nomutilisateur = c_nomutilisateur b"
| "champ b Motdepasse = c_motdepasse b"
| "champ b Email = c_email b"

text \<open>
  The row expected after an update by the request \<open>b\<close>, where \<open>h\<close> is the token made of
  its password: each non-empty field replaces its column, the other columns stay.
\<close>

definition ligne_attendue :: "corps \<Rightarrow> string \<Rightarrow> utilisateur \<Rightarrow> utilisateur" where
  "ligne_attendue b h r =
     \<lparr>id_u = id_u r,
      nomutilisateur =
        (if truthy (c_nomutilisateur b) then chaine (c_nomutilisateur b) else nomutilisateur r),
      motdepasse = (if truthy (c_motdepasse b) then h else motdepasse r),
      email = (if truthy (c_email b) then chaine (c_email b) else email r)\<rparr>"

text \<open>
  The non-empty name or email of the request \<open>b\<close> is that of a row with another id
  than \<open>i\<close>.
\<close>

definition pris :: "base \<Rightarrow> int \<Rightarrow> corps \<Rightarrow> bool" where
  "pris bdd i b =
     (\<exists>r \<in> set (lignes bdd). id_u r \<noteq> i \<and>
        ((truthy (c_nomutilisateur b) \<and> nomutilisateur r = chaine (c_nomutilisateur b)) \<or>
         (truthy (c_email b) \<and> email r = chaine (c_email b))))"

text \<open>The request with its empty fields left out.\<close>

definition omettre_vides :: "corps \<Rightarrow> corps" where
  "omettre_vides b =
     \<lparr>c_nomutilisateur = (if truthy (c_nomutilisateur b) then c_nomutilisateur b else None),
      c_motdepasse = (if truthy (c_motdepasse b) then c_motdepasse b else None),
      c_email = (if truthy (c_email b) then c_email b else None)\<rparr>"

text \<open>The keys of an account as the service returns it.\<close>

definition champs_publics :: "string list" where
  "champs_publics = [''id'', ''nomutilisateur'', ''email'']"

text \<open>The id of an account as the service returns it (0 for any other value).\<close>

fun id_json :: "json \<Rightarrow> int" where
  "id_json (JObj kvs) = (case map_of kvs ''id'' of Some (JNum k) \<Rightarrow> k | _ \<Rightarrow> 0)"
| "id_json _ = 0"

section \<open>The tables the service reaches\<close>

text \<open>The tables that the handlers produce from the empty table.\<close>

inductive atteignable :: "base \<Rightarrow> bool" where
  vide: "atteignable base_vide"
| post: "atteignable bdd \<Longrightarrow> atteignable (snd (post_utilisateurs a sel bdd b))"
| put: "atteignable bdd \<Longrightarrow> atteignable (snd (put_utilisateur a sel bdd i b))"
| put_complet: "atteignable bdd \<Longrightarrow> atteignable (snd (put_utilisateur_complet a sel bdd i b))"
| delete: "atteignable bdd \<Longrightarrow> atteignable (snd (delete_utilisateur bdd i))"

section \<open>Lemmas on the statements\<close>

subsection \<open>Row ids as JavaScript numbers\<close>

lemma pas_petit: "m < 9007199254740992 \<Longrightarrow> pas m = 1"
  by (subst pas.simps) simp

lemma pas_grand: "9007199254740992 \<le> m \<Longrightarrow> pas m = 2 * pas (m div 2)"
  by (subst pas.simps) simp

lemma pas_puissance: "\<exists>j. pas m = 2 ^ j"
proof (induction m rule: pas.induct)
  case (1 m)
  show ?case
  proof (cases "m < 9007199254740992")
    case True
    then have "pas m = 2 ^ 0" by (simp add: pas_petit)
    then show ?thesis by blast
  next
    case False
    with 1 obtain j where "pas (m div 2) = 2 ^ j" by auto
    with False have "pas m = 2 ^ Suc j" by (simp add: pas_grand)
    then show ?thesis by blast
  qed
qed

lemma pas_pos: "0 < pas m"
  using pas_puissance [of m] by auto

lemma pas_majore: "m < 9007199254740992 * pas m"
proof (induction m rule: pas.induct)
  case (1 m)
  show ?case
  proof (cases "m < 9007199254740992")
    case True
    then show ?thesis by (simp add: pas_petit)
  next
    case False
    with 1 have "m div 2 < 9007199254740992 * pas (m div 2)" by simp
    then have "m < 2 * (9007199254740992 * pas (m div 2))" by linarith
    with False show ?thesis by (simp add: pas_grand)
  qed
qed

lemma pas_minore: "2 \<le> pas m \<Longrightarrow> 4503599627370496 * pas m \<le> m"
proof (induction m rule: pas.induct)
  case (1 m)
  show ?case
  proof (cases "m < 9007199254740992")
    case True
    with "1.prems" show ?thesis by (simp add: pas_petit)
  next
    case False
    then have p: "pas m = 2 * pas (m div 2)" by (simp add: pas_grand)
    show ?thesis
    proof (cases "2 \<le> pas (m div 2)")
      case True
      with "1.IH" \<open>\<not> m < 9007199254740992\<close>
      have "4503599627370496 * pas (m div 2) \<le> m div 2" by simp
      then have "2 * (4503599627370496 * pas (m div 2)) \<le> m" by linarith
      with p show ?thesis by simp
    next
      case False
      with pas_pos [of "m div 2"] have "pas (m div 2) = 1" by linarith
      with p \<open>\<not> m < 9007199254740992\<close> show ?thesis by simp
    qed
  qed
qed

lemma puissances_deux:
  assumes "(2::int) ^ i < 2 ^ j"
  shows "2 * 2 ^ i \<le> (2::int) ^ j" and "(2::int) ^ i dvd 2 ^ j"
proof -
  from assms have "i < j" by (simp add: power_strict_increasing_iff)
  then have "Suc i \<le> j" by simp
  then have "(2::int) ^ Suc i \<le> 2 ^ j" by (rule power_increasing) simp
  then show "2 * 2 ^ i \<le> (2::int) ^ j" by simp
  from \<open>i < j\<close> show "(2::int) ^ i dvd 2 ^ j" by (simp add: le_imp_power_dvd)
qed

lemma pas_mono: assumes "a \<le> b" shows "pas a \<le> pas b"
proof (rule ccontr)
  assume "\<not> pas a \<le> pas b"
  then have lt: "pas b < pas a" by simp
  obtain i j where i: "pas b = 2 ^ i" and j: "pas a = 2 ^ j"
    using pas_puissance by blast
  from lt have "2 * pas b \<le> pas a" unfolding i j by (rule puissances_deux(1))
  moreover from this pas_pos [of b] have "2 \<le> pas a" by linarith
  then have "4503599627370496 * pas a \<le> a" by (rule pas_minore)
  moreover have "b < 9007199254740992 * pas b" by (rule pas_majore)
  ultimately show False using assms by linarith
qed

lemma arrondi_multiple: "u dvd m \<Longrightarrow> 0 < u \<Longrightarrow> arrondi u m = m"
  by (auto simp: arrondi_def Let_def)

lemma arrondi_bornes:
  assumes "0 < u"
  shows "(m div u) * u \<le> arrondi u m" and "arrondi u m \<le> (m div u + 1) * u"
  using assms by (auto simp: arrondi_def Let_def algebra_simps)

lemma arrondi_mono:
  assumes "0 < u" and "a \<le> b"
  shows "arrondi u a \<le> arrondi u b"
proof (cases "a div u = b div u")
  case True
  have "a mod u \<le> b mod u"
  proof -
    have "a = (a div u) * u + a mod u" by simp
    moreover have "b = (b div u) * u + b mod u" by simp
    ultimately show ?thesis using assms(2) unfolding True by linarith
  qed
  then show ?thesis unfolding arrondi_def Let_def True
    using assms(1) by (auto simp: algebra_simps)
next
  case False
  from assms have "a div u \<le> b div u" by (simp add: zdiv_mono1)
  with False have "a div u + 1 \<le> b div u" by simp
  then have "(a div u + 1) * u \<le> (b div u) * u"
    using assms(1) by (simp add: mult_right_mono)
  with arrondi_bornes(2) [OF assms(1), of a] arrondi_bornes(1) [OF assms(1), of b]
  show ?thesis by linarith
qed

lemma arrondi_positif: "0 < u \<Longrightarrow> 0 \<le> m \<Longrightarrow> 0 \<le> arrondi u m"
  using arrondi_mono [of u 0 m] by (simp add: arrondi_def)

text \<open>Across two magnitudes the order passes through the power of two between them.\<close>

lemma vers_double_mono_pos:
  assumes "0 \<le> a" and "a \<le> b"
  shows "arrondi (pas a) a \<le> arrondi (pas b) b"
proof (cases "pas a = pas b")
  case True
  then show ?thesis using arrondi_mono [OF pas_pos assms(2), of b] by simp
next
  case False
  with pas_mono [OF assms(2)] have lt: "pas a < pas b" by simp
  obtain i j where i: "pas a = 2 ^ i" and j: "pas b = 2 ^ j"
    using pas_puissance by blast
  from lt have d: "pas a dvd pas b" and g: "2 * pas a \<le> pas b"
    unfolding i j by (rule puissances_deux(2), rule puissances_deux(1))
  let ?B = "4503599627370496 * pas b"
  from g pas_pos [of a] have "2 \<le> pas b" by linarith
  then have Bb: "?B \<le> b" by (rule pas_minore)
  have "a < 9007199254740992 * pas a" by (rule pas_majore)
  with g have aB: "a \<le> ?B" by linarith
  from d have da: "pas a dvd ?B" by (rule dvd_mult)
  have db: "pas b dvd ?B" by simp
  have "arrondi (pas a) a \<le> arrondi (pas a) ?B" using pas_pos aB by (rule arrondi_mono)
  also have "\<dots> = ?B" using da pas_pos by (rule arrondi_multiple)
  also have "\<dots> = arrondi (pas b) ?B" using db pas_pos by (rule arrondi_multiple [symmetric])
  also have "\<dots> \<le> arrondi (pas b) b" using pas_pos Bb by (rule arrondi_mono)
  finally show ?thesis .
qed

lemma vers_double_mono: assumes "a \<le> b" shows "vers_double a \<le> vers_double b"
proof -
  consider "0 \<le> a" | "b < 0" | "a < 0" "0 \<le> b" by linarith
  then show ?thesis
  proof cases
    case 1
    with assms show ?thesis by (simp add: vers_double_def vers_double_mono_pos)
  next
    case 2
    with assms have "0 \<le> - b" "- b \<le> - a" "a < 0" by simp_all
    with vers_double_mono_pos [of "- b" "- a"] 2 show ?thesis
      by (simp add: vers_double_def)
  next
    case 3
    then have "0 \<le> arrondi (pas (- a)) (- a)" "0 \<le> arrondi (pas b) b"
      by (simp_all add: arrondi_positif pas_pos)
    with 3 show ?thesis by (simp add: vers_double_def)
  qed
qed

text \<open>Up to \<open>2^53\<close> the number is the row id; the next id has the same number.\<close>

lemma vers_double_exact:
  assumes "- 9007199254740992 \<le> k" and "k \<le> 9007199254740992"
  shows "vers_double k = k"
proof -
  have *: "arrondi (pas m) m = m" if "0 \<le> m" "m \<le> 9007199254740992" for m
  proof (cases "m < 9007199254740992")
    case True
    then show ?thesis by (simp add: pas_petit arrondi_def)
  next
    case False
    with that have m: "m = 9007199254740992" by simp
    have "pas 9007199254740992 = 2 * pas 4503599627370496" by (simp add: pas_grand)
    also have "\<dots> = 2" by (simp add: pas_petit)
    finally show ?thesis unfolding m by (simp add: arrondi_def)
  qed
  show ?thesis using assms *[of k] *[of "- k"] by (simp add: vers_double_def)
qed

lemma vers_double_au_dela: "vers_double 9007199254740993 = 9007199254740992"
proof -
  have "pas 9007199254740993 = 2 * pas 4503599627370496" by (simp add: pas_grand)
  also have "\<dots> = 2" by (simp add: pas_petit)
  finally show ?thesis by (simp add: vers_double_def arrondi_def)
qed

lemma vers_double_petits [simp]: "vers_double 1 = 1" "vers_double 2 = 2"
  by (simp_all add: vers_double_exact)

subsection \<open>The next row id exceeds every id in use\<close>

lemma fold_max_ge: "(a::int) \<le> fold max xs a"
  by (induction xs arbitrary: a) (auto intro: order_trans [OF max.cobounded2])

lemma fold_max_mem: "x \<in> set xs \<Longrightarrow> (x::int) \<le> fold max xs a"
proof (induction xs arbitrary: a)
  case Nil
  then show ?case by simp
next
  case (Cons y ys)
  show ?case
  proof (cases "x = y")
    case True
    have "max y a \<le> fold max ys (max y a)" by (rule fold_max_ge)
    with True show ?thesis by simp
  next
    case False
    with Cons show ?thesis by simp
  qed
qed

lemma prochain_id_gt: "r \<in> set (lignes bdd) \<Longrightarrow> id_u r < prochain_id bdd"
  using fold_max_mem [of "id_u r" "map id_u (lignes bdd)" "seq bdd"]
  by (simp add: prochain_id_def)

subsection \<open>Every statement keeps the invariant of the table\<close>

lemma bdd_valide_base_vide: "bdd_valide base_vide"
  by (simp add: bdd_valide_def base_vide_def)

lemma run_insert_lignes:
  assumes "run_insert bdd n m e = Inr (k, bdd')"
  shows "k = prochain_id bdd"
    and "lignes bdd' = lignes bdd @ [\<lparr>id_u = k, nomutilisateur = n, motdepasse = m, email = e\<rparr>]"
    and "seq bdd' = k"
    and "\<forall>r \<in> set (lignes bdd). nomutilisateur r \<noteq> n \<and> email r \<noteq> e"
  using assms by (auto simp: run_insert_def split: if_splits)

lemma bdd_valide_run_insert:
  assumes "bdd_valide bdd" and "run_insert bdd n m e = Inr (k, bdd')"
  shows "bdd_valide bdd'"
proof -
  note ins = run_insert_lignes [OF assms(2)]
  have lt: "\<forall>r \<in> set (lignes bdd). id_u r < k"
    using ins(1) prochain_id_gt by simp
  have "sorted_wrt (<) (map id_u (lignes bdd'))"
    using assms(1) lt by (simp add: ins(2) bdd_valide_def sorted_wrt_append)
  moreover have "\<forall>r \<in> set (lignes bdd'). id_u r \<le> seq bdd'"
    using lt by (auto simp: ins(2) ins(3))
  moreover have "distinct (map nomutilisateur (lignes bdd'))"
    using assms(1) ins(4) by (auto simp: ins(2) bdd_valide_def)
  moreover have "distinct (map email (lignes bdd'))"
    using assms(1) ins(4) by (auto simp: ins(2) bdd_valide_def)
  ultimately show ?thesis by (simp add: bdd_valide_def)
qed

lemma bdd_valide_run_delete:
  assumes "bdd_valide bdd" and "run_delete bdd i = Inr (k, bdd')"
  shows "bdd_valide bdd'"
proof -
  have l: "lignes bdd' = filter (\<lambda>r. id_u r \<noteq> i) (lignes bdd)" and s: "seq bdd' = seq bdd"
    using assms(2) by (auto simp: run_delete_def)
  have "sorted_wrt (<) (map id_u (lignes bdd'))"
    using assms(1) unfolding l bdd_valide_def
    by (simp add: sorted_wrt_map sorted_wrt_filter)
  moreover have "distinct (map nomutilisateur (lignes bdd'))"
    using assms(1) unfolding l bdd_valide_def by (simp add: distinct_map_filter)
  moreover have "distinct (map email (lignes bdd'))"
    using assms(1) unfolding l bdd_valide_def by (simp add: distinct_map_filter)
  moreover have "\<forall>r \<in> set (lignes bdd'). id_u r \<le> seq bdd'"
    using assms(1) unfolding l s bdd_valide_def by simp
  ultimately show ?thesis by (simp add: bdd_valide_def)
qed

lemma affecter_id [simp]: "id_u (affecter u r) = id_u r"
  by (cases u; cases "fst u") simp_all

lemma appliquer_id [simp]: "id_u (appliquer updates r) = id_u r"
  unfolding appliquer_def by (induction updates arbitrary: r) simp_all

lemma appliquer_nom_inchange:
  "Nomutilisateur \<notin> fst ` set updates \<Longrightarrow>
   nomutilisateur (appliquer updates r) = nomutilisateur r"
  unfolding appliquer_def
proof (induction updates arbitrary: r)
  case Nil
  then show ?case by simp
next
  case (Cons u us)
  then show ?case by (cases u; cases "fst u") auto
qed

lemma appliquer_email_inchange:
  "Email \<notin> fst ` set updates \<Longrightarrow> email (appliquer updates r) = email r"
  unfolding appliquer_def
proof (induction updates arbitrary: r)
  case Nil
  then show ?case by simp
next
  case (Cons u us)
  then show ?case by (cases u; cases "fst u") auto
qed

lemma map_update_absent:
  "\<forall>r \<in> set xs. id_u r \<noteq> i \<Longrightarrow> map (\<lambda>r. if id_u r = i then f r else r) xs = xs"
  by (induction xs) simp_all

text \<open>In a valid table the row of an id splits the list in two parts free of that id.\<close>

lemma ligne_unique:
  assumes "sorted_wrt (<) (map id_u xs)" and "r \<in> set xs"
  shows "\<exists>ys zs. xs = ys @ r # zs \<and> (\<forall>x \<in> set ys. id_u x \<noteq> id_u r) \<and>
    (\<forall>x \<in> set zs. id_u x \<noteq> id_u r)"
proof -
  from assms(2) obtain ys zs where xs: "xs = ys @ r # zs"
    by (auto dest: split_list)
  from assms(1) have lt: "\<forall>x \<in> set ys. id_u x < id_u r" and gt: "\<forall>x \<in> set zs. id_u r < id_u x"
    unfolding xs by (simp_all add: sorted_wrt_append)
  from lt have "\<forall>x \<in> set ys. id_u x \<noteq> id_u r" by fastforce
  moreover from gt have "\<forall>x \<in> set zs. id_u x \<noteq> id_u r" by fastforce
  ultimately show ?thesis using xs by blast
qed

lemma distinct_map_remplace:
  assumes "distinct (map f (ys @ r # zs))" and "\<forall>x \<in> set ys \<union> set zs. f x \<noteq> f r'"
  shows "distinct (map f (ys @ r' # zs))"
proof -
  from assms(2) have "f r' \<notin> f ` set ys" "f r' \<notin> f ` set zs"
    by (auto simp: image_iff)
  with assms(1) show ?thesis by simp
qed

lemma run_update_Inr:
  assumes "run_update bdd updates i = Inr (k, bdd')"
  shows "updates \<noteq> []" and "\<not> conflit bdd updates i"
    and "k = length (filter (\<lambda>r. id_u r = i) (lignes bdd))"
    and "lignes bdd' = map (\<lambda>r. if id_u r = i then appliquer updates r else r) (lignes bdd)"
    and "seq bdd' = seq bdd"
  using assms by (auto simp: run_update_def split: if_splits)

lemma bdd_valide_run_update:
  assumes v: "bdd_valide bdd" and u: "run_update bdd updates i = Inr (k, bdd')"
  shows "bdd_valide bdd'"
proof (cases "\<exists>r \<in> set (lignes bdd). id_u r = i")
  case False
  then have "lignes bdd' = lignes bdd"
    using run_update_Inr(4) [OF u] by (simp add: map_update_absent)
  with v run_update_Inr(5) [OF u] show ?thesis by (simp add: bdd_valide_def)
next
  case True
  then obtain r where r: "r \<in> set (lignes bdd)" "id_u r = i" by blast
  from v have srt: "sorted_wrt (<) (map id_u (lignes bdd))" by (simp add: bdd_valide_def)
  from ligne_unique [OF srt r(1)] obtain ys zs where
    xs: "lignes bdd = ys @ r # zs" and ys: "\<forall>x \<in> set ys. id_u x \<noteq> i"
    and zs: "\<forall>x \<in> set zs. id_u x \<noteq> i"
    unfolding r(2) by blast
  let ?r' = "appliquer updates r"
  have l': "lignes bdd' = ys @ ?r' # zs"
    using run_update_Inr(4) [OF u] ys zs r(2) by (simp add: xs map_update_absent)
  have ids: "map id_u (lignes bdd') = map id_u (lignes bdd)"
    by (simp add: l' xs r(2))
  have nc: "\<not> conflit bdd updates i" by (rule run_update_Inr(2) [OF u])
  have nom: "\<forall>x \<in> set ys \<union> set zs. nomutilisateur x \<noteq> nomutilisateur ?r'"
  proof (cases "Nomutilisateur \<in> fst ` set updates")
    case True
    show ?thesis
    proof
      fix x assume x: "x \<in> set ys \<union> set zs"
      then have "x \<in> set (lignes bdd)" "id_u x \<noteq> i" using ys zs by (auto simp: xs)
      with nc True r show "nomutilisateur x \<noteq> nomutilisateur ?r'"
        unfolding conflit_def by blast
    qed
  next
    case False
    then have eq: "nomutilisateur ?r' = nomutilisateur r" by (rule appliquer_nom_inchange)
    from v have "distinct (map nomutilisateur (ys @ r # zs))"
      by (simp only: bdd_valide_def xs)
    then have "nomutilisateur r \<notin> nomutilisateur ` (set ys \<union> set zs)" by auto
    then show ?thesis unfolding eq by (metis imageI)
  qed
  have em: "\<forall>x \<in> set ys \<union> set zs. email x \<noteq> email ?r'"
  proof (cases "Email \<in> fst ` set updates")
    case True
    show ?thesis
    proof
      fix x assume x: "x \<in> set ys \<union> set zs"
      then have "x \<in> set (lignes bdd)" "id_u x \<noteq> i" using ys zs by (auto simp: xs)
      with nc True r show "email x \<noteq> email ?r'"
        unfolding conflit_def by blast
    qed
  next
    case False
    then have eq: "email ?r' = email r" by (rule appliquer_email_inchange)
    from v have "distinct (map email (ys @ r # zs))"
      by (simp only: bdd_valide_def xs)
    then have "email r \<notin> email ` (set ys \<union> set zs)" by auto
    then show ?thesis unfolding eq by (metis imageI)
  qed
  have "distinct (map nomutilisateur (ys @ r # zs))"
    using v by (simp only: bdd_valide_def xs)
  then have "distinct (map nomutilisateur (lignes bdd'))"
    unfolding l' using nom by (rule distinct_map_remplace)
  moreover have "distinct (map email (ys @ r # zs))"
    using v by (simp only: bdd_valide_def xs)
  then have "distinct (map email (lignes bdd'))"
    unfolding l' using em by (rule distinct_map_remplace)
  moreover have "sorted_wrt (<) (map id_u (lignes bdd'))"
    using srt by (simp add: ids)
  moreover have "\<forall>x \<in> set (lignes bdd'). id_u x \<le> seq bdd'"
  proof -
    from v have "\<forall>x \<in> set (ys @ r # zs). id_u x \<le> seq bdd"
      unfolding bdd_valide_def xs by blast
    then show ?thesis unfolding l' run_update_Inr(5) [OF u] by simp
  qed
  ultimately show ?thesis by (simp add: bdd_valide_def)
qed

section \<open>The handlers, case by case\<close>

lemma bdd_valide_alice: "bdd_valide bdd_alice"
  by (simp add: bdd_valide_def bdd_alice_def alice_def)

lemma reponses_distinctes:
  "supprime \<noteq> non_trouve" "mis_a_jour \<noteq> non_trouve" "champ_requis \<noteq> non_trouve"
  "erreur_mise_a_jour \<noteq> non_trouve" "champ_requis \<noteq> erreur_mise_a_jour"
  "champ_requis \<noteq> mis_a_jour" "mot_de_passe_correct \<noteq> mot_de_passe_incorrect"
  "non_trouve \<noteq> mot_de_passe_incorrect" "non_trouve \<noteq> mot_de_passe_correct"
  "erreur_verification \<noteq> mot_de_passe_correct" "erreur_mise_a_jour \<noteq> mis_a_jour"
  by (simp_all add: supprime_def non_trouve_def mis_a_jour_def champ_requis_def
      erreur_mise_a_jour_def mot_de_passe_correct_def mot_de_passe_incorrect_def
      erreur_verification_def erreur_def message_def)

lemma statuts [simp]:
  "status supprime = 200" "status non_trouve = 404" "status mis_a_jour = 200"
  "status champ_requis = 400" "status erreur_mise_a_jour = 400" "status erreur_creation = 400"
  "status mot_de_passe_correct = 200" "status mot_de_passe_incorrect = 401"
  "status erreur_verification = 500" "status tous_requis = 400"
  "status tous_requis_variante = 400" "status non_trouve_variante = 404"
  "status erreur_mise_a_jour_variante = 400"
  by (simp_all add: supprime_def non_trouve_def mis_a_jour_def champ_requis_def
      erreur_mise_a_jour_def mot_de_passe_correct_def mot_de_passe_incorrect_def
      erreur_verification_def erreur_creation_def tous_requis_def tous_requis_variante_def
      non_trouve_variante_def erreur_mise_a_jour_variante_def)

lemma delete_utilisateur_eq:
  "delete_utilisateur bdd i =
     (if \<exists>r \<in> set (lignes bdd). id_u r = i
      then (supprime, bdd\<lparr>lignes := filter (\<lambda>r. id_u r \<noteq> i) (lignes bdd)\<rparr>)
      else (non_trouve, bdd))"
proof (cases "\<exists>r \<in> set (lignes bdd). id_u r = i")
  case True
  then have "filter (\<lambda>r. id_u r = i) (lignes bdd) \<noteq> []"
    by (simp add: filter_empty_conv)
  with True show ?thesis by (simp add: delete_utilisateur_def run_delete_def)
next
  case False
  then have "filter (\<lambda>r. id_u r \<noteq> i) (lignes bdd) = lignes bdd"
    by (simp add: filter_id_conv)
  moreover from False have "filter (\<lambda>r. id_u r = i) (lignes bdd) = []"
    by (simp add: filter_empty_conv)
  ultimately show ?thesis using False by (simp add: delete_utilisateur_def run_delete_def)
qed

section \<open>Deleting an account\<close>

text \<open>
  Claim C8. For an id in the table, \<open>DELETE /utilisateurs/:id\<close> answers the confirmation
  (200) and the same request on the resulting table answers not found (404). In
  general the handler answers not found exactly when no row has the id.
\<close>

theorem delete_utilisateur_deux_fois:
  "((\<exists>r \<in> set (lignes bdd). id_u r = i) \<longrightarrow>
      fst (delete_utilisateur bdd i) = supprime \<and>
      fst (delete_utilisateur (snd (delete_utilisateur bdd i)) i) = non_trouve) \<and>
   ((fst (delete_utilisateur bdd i) = non_trouve) = (\<not> (\<exists>r \<in> set (lignes bdd). id_u r = i)))"
  by (simp add: delete_utilisateur_eq reponses_distinctes)

theorem delete_utilisateur_deux_fois_witness:
  "id_u alice = 1 \<and> alice \<in> set (lignes bdd_alice) \<and>
   fst (delete_utilisateur bdd_alice 1) = supprime \<and>
   fst (delete_utilisateur (snd (delete_utilisateur bdd_alice 1)) 1) = non_trouve \<and>
   fst (delete_utilisateur base_vide 1) = non_trouve"
  using delete_utilisateur_deux_fois [of bdd_alice 1] delete_utilisateur_deux_fois [of base_vide 1]
  by (simp add: bdd_alice_def alice_def base_vide_def)

lemma run_update_eq:
  "run_update bdd updates i =
     (if updates = [] then Inl SQLITE_ERROR
      else if conflit bdd updates i then Inl SQLITE_CONSTRAINT
      else if \<exists>r \<in> set (lignes bdd). id_u r = i
        then Inr (length (filter (\<lambda>r. id_u r = i) (lignes bdd)),
          bdd\<lparr>lignes := map (\<lambda>r. if id_u r = i then appliquer updates r else r) (lignes bdd)\<rparr>)
      else Inr (0, bdd))"
proof (cases "\<exists>r \<in> set (lignes bdd). id_u r = i")
  case True
  then show ?thesis by (simp add: run_update_def)
next
  case False
  then have "filter (\<lambda>r. id_u r = i) (lignes bdd) = []"
    by (simp add: filter_empty_conv)
  moreover from False
  have "map (\<lambda>r. if id_u r = i then appliquer updates r else r) (lignes bdd) = lignes bdd"
    by (simp add: map_update_absent)
  ultimately show ?thesis using False by (simp add: run_update_def)
qed

lemma construire_updates_non_vide:
  assumes "truthy (c_nomutilisateur b) \<or> truthy (c_motdepasse b) \<or> truthy (c_email b)"
  shows "construire_updates a sel b \<noteq> Some []"
  using assms by (auto simp: construire_updates_def Let_def split: option.splits)

lemma put_utilisateur_eq:
  "put_utilisateur a sel bdd i b =
     (if \<not> truthy (c_nomutilisateur b) \<and> \<not> truthy (c_motdepasse b) \<and> \<not> truthy (c_email b)
      then (champ_requis, bdd)
      else
        (case construire_updates a sel b of
           None \<Rightarrow> (erreur_mise_a_jour, bdd)
         | Some updates \<Rightarrow>
            if conflit bdd updates i then (erreur_mise_a_jour, bdd)
            else if \<exists>r \<in> set (lignes bdd). id_u r = i
              then (mis_a_jour,
                bdd\<lparr>lignes :=
                  map (\<lambda>r. if id_u r = i then appliquer updates r else r) (lignes bdd)\<rparr>)
            else (non_trouve, bdd)))"
proof (cases "\<not> truthy (c_nomutilisateur b) \<and> \<not> truthy (c_motdepasse b) \<and> \<not> truthy (c_email b)")
  case True
  then show ?thesis by (simp add: put_utilisateur_def)
next
  case False
  then have nv: "construire_updates a sel b \<noteq> Some []"
    by (intro construire_updates_non_vide) blast
  show ?thesis
  proof (cases "construire_updates a sel b")
    case None
    with False show ?thesis by (auto simp: put_utilisateur_def)
  next
    case (Some updates)
    with nv have "updates \<noteq> []" by simp
    moreover have "(\<exists>r \<in> set (lignes bdd). id_u r = i) \<Longrightarrow>
      length (filter (\<lambda>r. id_u r = i) (lignes bdd)) \<noteq> 0"
      by (simp add: filter_empty_conv)
    ultimately show ?thesis using False Some
      by (auto simp: put_utilisateur_def run_update_eq)
  qed
qed

lemma put_utilisateur_complet_eq:
  "put_utilisateur_complet a sel bdd i b =
     (case validateUserInput_variante b of
        Some r \<Rightarrow> (r, bdd)
      | None \<Rightarrow>
         (case hash a sel (chaine (c_motdepasse b)) of
            None \<Rightarrow> (erreur_mise_a_jour_variante, bdd)
          | Some h \<Rightarrow>
             (let updates = [(Nomutilisateur, chaine (c_nomutilisateur b)), (Motdepasse, h),
                             (Email, chaine (c_email b))]
              in if conflit bdd updates i then (erreur_mise_a_jour_variante, bdd)
                 else if \<exists>r \<in> set (lignes bdd). id_u r = i
                   then (mis_a_jour,
                     bdd\<lparr>lignes :=
                       map (\<lambda>r. if id_u r = i then appliquer updates r else r) (lignes bdd)\<rparr>)
                 else (non_trouve_variante, bdd))))"
proof -
  have "(\<exists>r \<in> set (lignes bdd). id_u r = i) \<Longrightarrow>
      length (filter (\<lambda>r. id_u r = i) (lignes bdd)) \<noteq> 0"
    by (simp add: filter_empty_conv)
  then show ?thesis
    by (simp add: put_utilisateur_complet_def run_update_eq Let_def
        split: option.splits)
qed

lemma status_validateUserInput: "validateUserInput b = Some r \<Longrightarrow> status r = 400"
  by (auto simp: validateUserInput_def split: if_splits)

lemma status_validateUserInput_variante:
  "validateUserInput_variante b = Some r \<Longrightarrow> status r = 400"
  by (auto simp: validateUserInput_variante_def split: if_splits)

lemma post_utilisateurs_echec:
  "status (fst (post_utilisateurs a sel bdd b)) \<noteq> 201 \<Longrightarrow>
   snd (post_utilisateurs a sel bdd b) = bdd"
  by (auto simp: post_utilisateurs_def split: option.splits sum.splits)

lemma put_utilisateur_echec:
  "status (fst (put_utilisateur a sel bdd i b)) \<noteq> 200 \<Longrightarrow>
   snd (put_utilisateur a sel bdd i b) = bdd"
  by (auto simp: put_utilisateur_eq split: option.splits if_splits)

lemma put_utilisateur_complet_echec:
  "status (fst (put_utilisateur_complet a sel bdd i b)) \<noteq> 200 \<Longrightarrow>
   snd (put_utilisateur_complet a sel bdd i b) = bdd"
  by (auto simp: put_utilisateur_complet_eq Let_def split: option.splits if_splits)

lemma delete_utilisateur_echec:
  "status (fst (delete_utilisateur bdd i)) \<noteq> 200 \<Longrightarrow>
   snd (delete_utilisateur bdd i) = bdd"
  by (auto simp: delete_utilisateur_eq split: if_splits)

section \<open>A failed request leaves the table as it was\<close>

text \<open>
  Claim C5. Whenever the creation handler answers anything but 201, or an update handler
  or the deletion handler anything but 200 (a missing field, a hasher that throws, a
  statement that throws on a taken name or email, an id that no row has), the table
  after the call is the table before it.
\<close>

theorem echec_sans_effet:
  "(status (fst (post_utilisateurs a sel bdd b)) \<noteq> 201 \<longrightarrow>
      snd (post_utilisateurs a sel bdd b) = bdd) \<and>
   (status (fst (put_utilisateur a sel bdd i b)) \<noteq> 200 \<longrightarrow>
      snd (put_utilisateur a sel bdd i b) = bdd) \<and>
   (status (fst (put_utilisateur_complet a sel bdd i b)) \<noteq> 200 \<longrightarrow>
      snd (put_utilisateur_complet a sel bdd i b) = bdd) \<and>
   (status (fst (delete_utilisateur bdd i)) \<noteq> 200 \<longrightarrow>
      snd (delete_utilisateur bdd i) = bdd)"
  using post_utilisateurs_echec put_utilisateur_echec put_utilisateur_complet_echec
    delete_utilisateur_echec
  by blast

theorem echec_sans_effet_witness:
  "status (fst (post_utilisateurs argon2_jouet [] bdd_alice corps_alice)) = 400 \<and>
   snd (post_utilisateurs argon2_jouet [] bdd_alice corps_alice) = bdd_alice \<and>
   status (fst (put_utilisateur argon2_en_panne [] bdd_alice 1 corps_secret)) = 400 \<and>
   snd (put_utilisateur argon2_en_panne [] bdd_alice 1 corps_secret) = bdd_alice \<and>
   status (fst (put_utilisateur_complet argon2_jouet [] bdd_alice 2 corps_alice)) = 404 \<and>
   snd (put_utilisateur_complet argon2_jouet [] bdd_alice 2 corps_alice) = bdd_alice \<and>
   status (fst (delete_utilisateur bdd_alice 2)) = 404 \<and>
   snd (delete_utilisateur bdd_alice 2) = bdd_alice"
proof -
  have 1: "status (fst (post_utilisateurs argon2_jouet [] bdd_alice corps_alice)) = 400"
    by (simp add: post_utilisateurs_def validateUserInput_def corps_alice_def argon2_jouet_def
        run_insert_def prochain_id_def bdd_alice_def alice_def)
  have 2: "status (fst (put_utilisateur argon2_en_panne [] bdd_alice 1 corps_secret)) = 400"
    by (simp add: put_utilisateur_def construire_updates_def corps_secret_def
        argon2_en_panne_def)
  have 3: "status (fst (put_utilisateur_complet argon2_jouet [] bdd_alice 2 corps_alice)) = 404"
    by (simp add: put_utilisateur_complet_eq validateUserInput_variante_def corps_alice_def
        argon2_jouet_def conflit_def bdd_alice_def alice_def)
  have 4: "status (fst (delete_utilisateur bdd_alice 2)) = 404"
    by (simp add: delete_utilisateur_eq bdd_alice_def alice_def)
  show ?thesis
    using echec_sans_effet [of argon2_jouet "[]" bdd_alice corps_alice 2]
      echec_sans_effet [of argon2_en_panne "[]" bdd_alice corps_secret 1]
      1 2 3 4
    by simp
qed

section \<open>Every handler keeps the invariant\<close>

lemma bdd_valide_post_utilisateurs:
  assumes "bdd_valide bdd"
  shows "bdd_valide (snd (post_utilisateurs a sel bdd b))"
proof (cases "status (fst (post_utilisateurs a sel bdd b)) = 201")
  case False
  then show ?thesis using assms by (simp add: post_utilisateurs_echec)
next
  case True
  then obtain h k bdd' where
    "run_insert bdd (chaine (c_nomutilisateur b)) h (chaine (c_email b)) = Inr (k, bdd')"
    and "snd (post_utilisateurs a sel bdd b) = bdd'"
    by (auto simp: post_utilisateurs_def status_validateUserInput
        split: option.splits sum.splits)
  with assms show ?thesis by (simp add: bdd_valide_run_insert)
qed

lemma bdd_valide_map_update:
  assumes "bdd_valide bdd" and "\<not> conflit bdd updates i" and "updates \<noteq> []"
  shows "bdd_valide
    (bdd\<lparr>lignes := map (\<lambda>r. if id_u r = i then appliquer updates r else r) (lignes bdd)\<rparr>)"
proof -
  have "run_update bdd updates i =
    Inr (length (filter (\<lambda>r. id_u r = i) (lignes bdd)),
      bdd\<lparr>lignes := map (\<lambda>r. if id_u r = i then appliquer updates r else r) (lignes bdd)\<rparr>)"
    using assms(2,3) by (simp add: run_update_def)
  with assms(1) show ?thesis by (rule bdd_valide_run_update)
qed

lemma bdd_valide_put_utilisateur:
  assumes "bdd_valide bdd"
  shows "bdd_valide (snd (put_utilisateur a sel bdd i b))"
proof (cases "status (fst (put_utilisateur a sel bdd i b)) = 200")
  case False
  then show ?thesis using assms by (simp add: put_utilisateur_echec)
next
  case True
  then obtain updates where u: "construire_updates a sel b = Some updates"
    and nc: "\<not> conflit bdd updates i"
    and nv: "truthy (c_nomutilisateur b) \<or> truthy (c_motdepasse b) \<or> truthy (c_email b)"
    and s: "snd (put_utilisateur a sel bdd i b) =
      bdd\<lparr>lignes := map (\<lambda>r. if id_u r = i then appliquer updates r else r) (lignes bdd)\<rparr>"
    by (auto simp: put_utilisateur_eq split: option.splits if_splits)
  from nv u have "updates \<noteq> []" using construire_updates_non_vide [of b a sel] by auto
  with assms nc show ?thesis unfolding s by (rule bdd_valide_map_update)
qed

lemma bdd_valide_put_utilisateur_complet:
  assumes "bdd_valide bdd"
  shows "bdd_valide (snd (put_utilisateur_complet a sel bdd i b))"
proof (cases "status (fst (put_utilisateur_complet a sel bdd i b)) = 200")
  case False
  then show ?thesis using assms by (simp add: put_utilisateur_complet_echec)
next
  case True
  then obtain updates where nc: "\<not> conflit bdd updates i" and nv: "updates \<noteq> []"
    and s: "snd (put_utilisateur_complet a sel bdd i b) =
      bdd\<lparr>lignes := map (\<lambda>r. if id_u r = i then appliquer updates r else r) (lignes bdd)\<rparr>"
    by (auto simp: put_utilisateur_complet_eq Let_def status_validateUserInput_variante
        split: option.splits if_splits)
  with assms show ?thesis unfolding s by (intro bdd_valide_map_update)
qed

lemma bdd_valide_delete_utilisateur:
  assumes "bdd_valide bdd"
  shows "bdd_valide (snd (delete_utilisateur bdd i))"
  using bdd_valide_run_delete [OF assms, of i]
  by (auto simp: delete_utilisateur_def run_delete_def)

lemma atteignable_valide: "atteignable bdd \<Longrightarrow> bdd_valide bdd"
proof (induction rule: atteignable.induct)
  case vide
  show ?case by (rule bdd_valide_base_vide)
next
  case (post bdd a sel b)
  then show ?case by (simp add: bdd_valide_post_utilisateurs)
next
  case (put bdd a sel i b)
  then show ?case by (simp add: bdd_valide_put_utilisateur)
next
  case (put_complet bdd a sel i b)
  then show ?case by (simp add: bdd_valide_put_utilisateur_complet)
next
  case (delete bdd i)
  then show ?case by (simp add: bdd_valide_delete_utilisateur)
qed

lemma post_utilisateurs_alice:
  "post_utilisateurs argon2_jouet [] base_vide corps_alice =
     (Reponse 201 (select_id_nom_email alice), bdd_alice)"
  by (simp add: post_utilisateurs_def validateUserInput_def corps_alice_def argon2_jouet_def
      run_insert_def prochain_id_def base_vide_def bdd_alice_def alice_def
      select_id_nom_email_def)

lemma atteignable_bdd_alice: "atteignable bdd_alice"
  using atteignable.post [OF atteignable.vide, of argon2_jouet "[]" corps_alice]
  by (simp add: post_utilisateurs_alice)

lemma post_utilisateurs_bob:
  "post_utilisateurs argon2_jouet [] bdd_alice corps_bob_creation =
     (Reponse 201 (select_id_nom_email bob), bdd_alice_bob)"
  by (simp add: post_utilisateurs_def validateUserInput_def corps_bob_creation_def
      argon2_jouet_def run_insert_def prochain_id_def bdd_alice_def alice_def
      bdd_alice_bob_def bob_def select_id_nom_email_def)

lemma atteignable_bdd_alice_bob: "atteignable bdd_alice_bob"
  using atteignable.post [OF atteignable_bdd_alice, of argon2_jouet "[]" corps_bob_creation]
  by (simp add: post_utilisateurs_bob)

section \<open>What the service returns of an account\<close>

lemma cles_select [simp]: "cles (select_id_nom_email r) = champs_publics"
  by (simp add: select_id_nom_email_def champs_publics_def)

lemma id_json_select [simp]: "id_json (select_id_nom_email r) = vers_double (id_u r)"
  by (simp add: select_id_nom_email_def)

text \<open>
  Claim C3. The account in a successful answer of the creation handler (201), of the
  handler reading one account (200) and each account in the list of the handler reading
  all of them has the keys \<open>id\<close>, \<open>nomutilisateur\<close> and \<open>email\<close>, in this order, and
  so has no key \<open>motdepasse\<close>.
\<close>

theorem comptes_sans_motdepasse:
  "(status (fst (post_utilisateurs a sel bdd b)) = 201 \<longrightarrow>
      cles (contenu (fst (post_utilisateurs a sel bdd b))) = champs_publics) \<and>
   (status (get_utilisateur bdd i) = 200 \<longrightarrow>
      cles (contenu (get_utilisateur bdd i)) = champs_publics) \<and>
   (\<exists>us. get_utilisateurs bdd = Reponse 200 (JArr us) \<and>
      (\<forall>u \<in> set us. cles u = champs_publics)) \<and>
   ''motdepasse'' \<notin> set champs_publics"
proof -
  have "status (fst (post_utilisateurs a sel bdd b)) = 201 \<Longrightarrow>
      cles (contenu (fst (post_utilisateurs a sel bdd b))) = champs_publics"
    by (auto simp: post_utilisateurs_def champs_publics_def status_validateUserInput
        split: option.splits sum.splits)
  moreover have "status (get_utilisateur bdd i) = 200 \<Longrightarrow>
      cles (contenu (get_utilisateur bdd i)) = champs_publics"
    by (auto simp: get_utilisateur_def get_select_def non_trouve_def split: option.splits)
  moreover have "\<exists>us. get_utilisateurs bdd = Reponse 200 (JArr us) \<and>
      (\<forall>u \<in> set us. cles u = champs_publics)"
    by (simp add: get_utilisateurs_def all_select_def)
  moreover have "''motdepasse'' \<notin> set champs_publics"
    by (simp add: champs_publics_def)
  ultimately show ?thesis by blast
qed

theorem comptes_sans_motdepasse_witness:
  "status (fst (post_utilisateurs argon2_jouet [] base_vide corps_alice)) = 201 \<and>
   cles (contenu (fst (post_utilisateurs argon2_jouet [] base_vide corps_alice))) =
     [''id'', ''nomutilisateur'', ''email''] \<and>
   status (get_utilisateur bdd_alice 1) = 200 \<and>
   cles (contenu (get_utilisateur bdd_alice 1)) = [''id'', ''nomutilisateur'', ''email'']"
proof -
  have 1: "status (fst (post_utilisateurs argon2_jouet [] base_vide corps_alice)) = 201"
    by (simp add: post_utilisateurs_alice)
  have 2: "status (get_utilisateur bdd_alice 1) = 200"
    by (simp add: get_utilisateur_def get_select_def bdd_alice_def alice_def)
  show ?thesis
    using comptes_sans_motdepasse [of argon2_jouet "[]" base_vide corps_alice 1]
      comptes_sans_motdepasse [of argon2_jouet "[]" bdd_alice corps_alice 1] 1 2
    by (simp add: champs_publics_def)
qed

section \<open>Listing the accounts\<close>

lemma post_utilisateurs_201:
  assumes "status (fst (post_utilisateurs a sel bdd b)) = 201"
  shows "\<exists>h. hash a sel (chaine (c_motdepasse b)) = Some h \<and>
    truthy (c_nomutilisateur b) \<and> truthy (c_motdepasse b) \<and> truthy (c_email b) \<and>
    post_utilisateurs a sel bdd b =
      (Reponse 201 (select_id_nom_email
         \<lparr>id_u = prochain_id bdd, nomutilisateur = chaine (c_nomutilisateur b),
          motdepasse = h, email = chaine (c_email b)\<rparr>),
       \<lparr>lignes = lignes bdd @
          [\<lparr>id_u = prochain_id bdd, nomutilisateur = chaine (c_nomutilisateur b),
            motdepasse = h, email = chaine (c_email b)\<rparr>],
        seq = prochain_id bdd\<rparr>)"
  using assms
  by (auto simp: post_utilisateurs_def validateUserInput_def run_insert_def
      select_id_nom_email_def erreur_creation_def
      split: option.splits sum.splits if_splits)

lemma put_utilisateur_ids:
  "map id_u (lignes (snd (put_utilisateur a sel bdd i b))) = map id_u (lignes bdd)"
  "seq (snd (put_utilisateur a sel bdd i b)) = seq bdd"
proof -
  have "map id_u (map (\<lambda>r. if id_u r = i then appliquer u r else r) (lignes bdd)) =
    map id_u (lignes bdd)" for u
    by (induction "lignes bdd") (simp_all add: comp_def)
  then show "map id_u (lignes (snd (put_utilisateur a sel bdd i b))) = map id_u (lignes bdd)"
    by (simp add: put_utilisateur_eq split: option.splits)
  show "seq (snd (put_utilisateur a sel bdd i b)) = seq bdd"
    by (simp add: put_utilisateur_eq split: option.splits)
qed

lemma put_utilisateur_complet_ids:
  "map id_u (lignes (snd (put_utilisateur_complet a sel bdd i b))) = map id_u (lignes bdd)"
  "seq (snd (put_utilisateur_complet a sel bdd i b)) = seq bdd"
proof -
  have "map id_u (map (\<lambda>r. if id_u r = i then appliquer u r else r) (lignes bdd)) =
    map id_u (lignes bdd)" for u
    by (induction "lignes bdd") (simp_all add: comp_def)
  then show "map id_u (lignes (snd (put_utilisateur_complet a sel bdd i b))) =
    map id_u (lignes bdd)"
    by (simp add: put_utilisateur_complet_eq Let_def split: option.splits)
  show "seq (snd (put_utilisateur_complet a sel bdd i b)) = seq bdd"
    by (simp add: put_utilisateur_complet_eq Let_def split: option.splits)
qed

text \<open>The ids that the service gives are positive.\<close>

lemma atteignable_ids_positifs:
  "atteignable bdd \<Longrightarrow> 0 \<le> seq bdd \<and> (\<forall>j \<in> set (map id_u (lignes bdd)). 0 < j)"
proof (induction rule: atteignable.induct)
  case vide
  show ?case by (simp add: base_vide_def)
next
  case (post bdd a sel b)
  show ?case
  proof (cases "status (fst (post_utilisateurs a sel bdd b)) = 201")
    case False
    with post.IH show ?thesis by (simp add: post_utilisateurs_echec)
  next
    case True
    from post_utilisateurs_201 [OF True] obtain h where
      "snd (post_utilisateurs a sel bdd b) =
        \<lparr>lignes = lignes bdd @
          [\<lparr>id_u = prochain_id bdd, nomutilisateur = chaine (c_nomutilisateur b),
            motdepasse = h, email = chaine (c_email b)\<rparr>],
         seq = prochain_id bdd\<rparr>"
      by auto
    moreover have "seq bdd < prochain_id bdd"
      using fold_max_ge [of "seq bdd" "map id_u (lignes bdd)"] by (simp add: prochain_id_def)
    ultimately show ?thesis using post.IH by auto
  qed
next
  case (put bdd a sel i b)
  from put.IH show ?case unfolding put_utilisateur_ids .
next
  case (put_complet bdd a sel i b)
  from put_complet.IH show ?case unfolding put_utilisateur_complet_ids .
next
  case (delete bdd i)
  then show ?case by (auto simp: delete_utilisateur_def run_delete_def)
qed

lemma sorted_vers_double:
  "sorted_wrt (<) xs \<Longrightarrow> sorted (map vers_double xs)"
  by (induction xs) (auto simp: vers_double_mono order.strict_implies_order)

text \<open>
  Claim C9. In every table the service reaches, \<open>GET /utilisateurs\<close> answers with the
  finite list of all the rows of the table, one account per row, in the order of the
  primary key: the ids of the rows are strictly ascending, and the ids listed, which
  are numbers, never descend. While the counter of the table is at most \<open>2^53\<close> the
  ids listed are the ids of the rows, strictly ascending. This is the order of
  insertion: a creation that succeeds puts its row last, with an id above every id in
  the table, while an update keeps the ids in place and a deletion only removes rows.
\<close>

theorem get_utilisateurs_ordre:
  assumes "atteignable bdd"
  shows "get_utilisateurs bdd = Reponse 200 (JArr (map select_id_nom_email (lignes bdd))) \<and>
    sorted_wrt (<) (map id_u (lignes bdd)) \<and>
    sorted (map id_json (map select_id_nom_email (lignes bdd))) \<and>
    (seq bdd \<le> 9007199254740992 \<longrightarrow>
       map id_json (map select_id_nom_email (lignes bdd)) = map id_u (lignes bdd) \<and>
       sorted_wrt (<) (map id_json (map select_id_nom_email (lignes bdd)))) \<and>
    (status (fst (post_utilisateurs a sel bdd b)) = 201 \<longrightarrow>
       (\<exists>nouveau. lignes (snd (post_utilisateurs a sel bdd b)) = lignes bdd @ [nouveau] \<and>
          (\<forall>r \<in> set (lignes bdd). id_u r < id_u nouveau))) \<and>
    map id_u (lignes (snd (put_utilisateur a sel bdd i b))) = map id_u (lignes bdd) \<and>
    lignes (snd (delete_utilisateur bdd i)) = filter (\<lambda>r. id_u r \<noteq> i) (lignes bdd)"
proof -
  from assms have v: "bdd_valide bdd" by (rule atteignable_valide)
  then have srt: "sorted_wrt (<) (map id_u (lignes bdd))" by (simp add: bdd_valide_def)
  have eq: "map id_json (map select_id_nom_email (lignes bdd)) =
    map vers_double (map id_u (lignes bdd))"
    by simp
  have 1: "get_utilisateurs bdd = Reponse 200 (JArr (map select_id_nom_email (lignes bdd)))"
    by (simp add: get_utilisateurs_def all_select_def)
  have 2: "sorted (map id_json (map select_id_nom_email (lignes bdd)))"
    unfolding eq using srt by (rule sorted_vers_double)
  have 3: "map id_json (map select_id_nom_email (lignes bdd)) = map id_u (lignes bdd) \<and>
      sorted_wrt (<) (map id_json (map select_id_nom_email (lignes bdd)))"
    if borne: "seq bdd \<le> 9007199254740992"
  proof -
    have "vers_double j = j" if "j \<in> set (map id_u (lignes bdd))" for j
    proof (rule vers_double_exact)
      from atteignable_ids_positifs [OF assms] that show "- 9007199254740992 \<le> j" by force
      from v that have "j \<le> seq bdd" by (auto simp: bdd_valide_def)
      with borne show "j \<le> 9007199254740992" by simp
    qed
    then have "map vers_double (map id_u (lignes bdd)) = map id_u (lignes bdd)"
      by (simp only: map_idI)
    with srt show ?thesis by (simp only: eq)
  qed
  have 4: "\<exists>nouveau. lignes (snd (post_utilisateurs a sel bdd b)) = lignes bdd @ [nouveau] \<and>
       (\<forall>r \<in> set (lignes bdd). id_u r < id_u nouveau)"
    if "status (fst (post_utilisateurs a sel bdd b)) = 201"
  proof -
    from post_utilisateurs_201 [OF that] obtain h where
      "lignes (snd (post_utilisateurs a sel bdd b)) = lignes bdd @
          [\<lparr>id_u = prochain_id bdd, nomutilisateur = chaine (c_nomutilisateur b),
            motdepasse = h, email = chaine (c_email b)\<rparr>]"
      by auto
    then show ?thesis by (simp add: prochain_id_gt)
  qed
  have 5: "map id_u (lignes (snd (put_utilisateur a sel bdd i b))) = map id_u (lignes bdd)"
    by (rule put_utilisateur_ids)
  have 6: "lignes (snd (delete_utilisateur bdd i)) = filter (\<lambda>r. id_u r \<noteq> i) (lignes bdd)"
    by (simp add: delete_utilisateur_def run_delete_def)
  from 1 srt 2 3 4 5 6 show ?thesis by blast
qed

theorem get_utilisateurs_ordre_witness:
  "atteignable bdd_alice_bob \<and> seq bdd_alice_bob = 2 \<and>
   get_utilisateurs bdd_alice_bob =
     Reponse 200
       (JArr [JObj [(''id'', JNum 1), (''nomutilisateur'', JStr ''alice''),
                    (''email'', JStr ''a@x.io'')],
              JObj [(''id'', JNum 2), (''nomutilisateur'', JStr ''bob''),
                    (''email'', JStr ''b@x.io'')]]) \<and>
   map id_json (map select_id_nom_email (lignes bdd_alice_bob)) = [1, 2] \<and>
   status (fst (post_utilisateurs argon2_jouet [] bdd_alice corps_bob_creation)) = 201 \<and>
   lignes (snd (post_utilisateurs argon2_jouet [] bdd_alice corps_bob_creation)) =
     lignes bdd_alice @ [bob] \<and>
   id_u alice < id_u bob"
proof -
  have s: "seq bdd_alice_bob = 2" by (simp add: bdd_alice_bob_def)
  then have borne: "seq bdd_alice_bob \<le> 9007199254740992" by simp
  have ids: "map id_u (lignes bdd_alice_bob) = [1, 2]"
    by (simp add: bdd_alice_bob_def alice_def bob_def)
  have sel: "map select_id_nom_email (lignes bdd_alice_bob) =
     [JObj [(''id'', JNum 1), (''nomutilisateur'', JStr ''alice''),
            (''email'', JStr ''a@x.io'')],
      JObj [(''id'', JNum 2), (''nomutilisateur'', JStr ''bob''),
            (''email'', JStr ''b@x.io'')]]"
    by (simp add: bdd_alice_bob_def alice_def bob_def select_id_nom_email_def)
  have p: "status (fst (post_utilisateurs argon2_jouet [] bdd_alice corps_bob_creation)) = 201"
    by (simp add: post_utilisateurs_bob)
  have "lignes bdd_alice_bob = lignes bdd_alice @ [bob]"
    by (simp add: bdd_alice_bob_def bdd_alice_def)
  then have l: "lignes (snd (post_utilisateurs argon2_jouet [] bdd_alice corps_bob_creation)) =
     lignes bdd_alice @ [bob]"
    by (simp add: post_utilisateurs_bob)
  note ordre = get_utilisateurs_ordre [OF atteignable_bdd_alice_bob]
  from ordre have "get_utilisateurs bdd_alice_bob =
    Reponse 200 (JArr (map select_id_nom_email (lignes bdd_alice_bob)))"
    by blast
  then have g: "get_utilisateurs bdd_alice_bob =
     Reponse 200
       (JArr [JObj [(''id'', JNum 1), (''nomutilisateur'', JStr ''alice''),
                    (''email'', JStr ''a@x.io'')],
              JObj [(''id'', JNum 2), (''nomutilisateur'', JStr ''bob''),
                    (''email'', JStr ''b@x.io'')]])"
    by (simp only: sel)
  from ordre borne have "map id_json (map select_id_nom_email (lignes bdd_alice_bob)) =
    map id_u (lignes bdd_alice_bob)"
    by blast
  then have i: "map id_json (map select_id_nom_email (lignes bdd_alice_bob)) = [1, 2]"
    by (simp only: ids)
  from get_utilisateurs_ordre [OF atteignable_bdd_alice, of argon2_jouet "[]" corps_bob_creation]
    p l
  have "id_u alice < id_u bob" by (auto simp: bdd_alice_def)
  with atteignable_bdd_alice_bob s g i p l show ?thesis by blast
qed

section \<open>Creating an account whose name or email is taken\<close>

lemma compte_unique:
  assumes "distinct (map f xs)" and "r \<in> set xs"
  shows "length (filter (\<lambda>x. f x = f r) xs) = 1"
  using assms
proof (induction xs)
  case Nil
  then show ?case by simp
next
  case (Cons x xs)
  show ?case
  proof (cases "x = r")
    case True
    from Cons.prems(1) have "f x \<notin> f ` set xs" by simp
    then have "\<forall>y \<in> set xs. f y \<noteq> f x" by (metis imageI)
    with True have "filter (\<lambda>y. f y = f r) xs = []"
      by (simp add: filter_empty_conv)
    with True show ?thesis by simp
  next
    case False
    with Cons.prems have "r \<in> set xs" and "f x \<noteq> f r" by auto
    with Cons show ?thesis by simp
  qed
qed

text \<open>
  Claim C4. On a table with unique names and emails, a creation request with its three
  fields non-empty whose name or email is that of a row of the table gets the failure
  answer of the creation handler (400; the handler has this one answer for every
  statement or hasher that throws). The table is unchanged, so that afterwards exactly
  one row has that name (or that email).
\<close>

theorem post_utilisateurs_conflit:
  assumes "bdd_valide bdd" and "validateUserInput b = None" and "r \<in> set (lignes bdd)"
    and "nomutilisateur r = chaine (c_nomutilisateur b) \<or> email r = chaine (c_email b)"
  shows "fst (post_utilisateurs a sel bdd b) = erreur_creation \<and>
    snd (post_utilisateurs a sel bdd b) = bdd \<and>
    (nomutilisateur r = chaine (c_nomutilisateur b) \<longrightarrow>
       length (filter (\<lambda>x. nomutilisateur x = chaine (c_nomutilisateur b))
         (lignes (snd (post_utilisateurs a sel bdd b)))) = 1) \<and>
    (email r = chaine (c_email b) \<longrightarrow>
       length (filter (\<lambda>x. email x = chaine (c_email b))
         (lignes (snd (post_utilisateurs a sel bdd b)))) = 1)"
proof -
  have ins: "run_insert bdd (chaine (c_nomutilisateur b)) h (chaine (c_email b)) =
      Inl SQLITE_FULL \<or>
    run_insert bdd (chaine (c_nomutilisateur b)) h (chaine (c_email b)) =
      Inl SQLITE_CONSTRAINT" for h
    using assms(3,4) by (auto simp: run_insert_def)
  have p: "post_utilisateurs a sel bdd b = (erreur_creation, bdd)"
  proof (cases "hash a sel (chaine (c_motdepasse b))")
    case None
    with assms(2) show ?thesis by (simp add: post_utilisateurs_def)
  next
    case (Some h)
    with assms(2) ins [of h] show ?thesis by (auto simp: post_utilisateurs_def)
  qed
  from assms(1) have d: "distinct (map nomutilisateur (lignes bdd))"
    "distinct (map email (lignes bdd))"
    by (simp_all add: bdd_valide_def)
  have "nomutilisateur r = chaine (c_nomutilisateur b) \<Longrightarrow>
    length (filter (\<lambda>x. nomutilisateur x = chaine (c_nomutilisateur b)) (lignes bdd)) = 1"
    using compte_unique [OF d(1) assms(3)] by simp
  moreover have "email r = chaine (c_email b) \<Longrightarrow>
    length (filter (\<lambda>x. email x = chaine (c_email b)) (lignes bdd)) = 1"
    using compte_unique [OF d(2) assms(3)] by simp
  ultimately show ?thesis by (simp add: p)
qed

theorem post_utilisateurs_conflit_witness:
  "bdd_valide bdd_alice \<and> validateUserInput corps_alice = None \<and>
   alice \<in> set (lignes bdd_alice) \<and>
   nomutilisateur alice = chaine (c_nomutilisateur corps_alice) \<and>
   fst (post_utilisateurs argon2_jouet [] bdd_alice corps_alice) = erreur_creation \<and>
   snd (post_utilisateurs argon2_jouet [] bdd_alice corps_alice) = bdd_alice \<and>
   length (filter (\<lambda>x. nomutilisateur x = ''alice'')
     (lignes (snd (post_utilisateurs argon2_jouet [] bdd_alice corps_alice)))) = 1"
proof -
  have 1: "validateUserInput corps_alice = None"
    by (simp add: validateUserInput_def corps_alice_def)
  have 2: "alice \<in> set (lignes bdd_alice)" by (simp add: bdd_alice_def)
  have 3: "nomutilisateur alice = chaine (c_nomutilisateur corps_alice)"
    by (simp add: alice_def corps_alice_def)
  have 4: "chaine (c_nomutilisateur corps_alice) = ''alice''"
    by (simp add: corps_alice_def)
  from 3 have 5: "nomutilisateur alice = chaine (c_nomutilisateur corps_alice) \<or>
    email alice = chaine (c_email corps_alice)" ..
  show ?thesis
    using post_utilisateurs_conflit [OF bdd_valide_alice 1 2 5, of argon2_jouet "[]"]
      bdd_valide_alice 1 2 3
    by (auto simp: 4)
qed

section \<open>Checking a password\<close>

lemma find_unique:
  assumes "distinct (map f xs)" and "r \<in> set xs"
  shows "find (\<lambda>x. f x = f r) xs = Some r"
  using assms by (induction xs) (auto simp: image_iff)

lemma find_absent: "\<forall>x \<in> set xs. \<not> P x \<Longrightarrow> find P xs = None"
  by (induction xs) simp_all

lemma post_verifier_motdepasse_trouve:
  assumes "bdd_valide bdd" and "r \<in> set (lignes bdd)"
    and "c_nomutilisateur b = Some (nomutilisateur r)" and "nomutilisateur r \<noteq> []"
    and "truthy (c_motdepasse b)"
  shows "post_verifier_motdepasse a bdd b =
    (case verify a (motdepasse r) (chaine (c_motdepasse b)) of
       None \<Rightarrow> erreur_verification
     | Some v \<Rightarrow> if v then mot_de_passe_correct else mot_de_passe_incorrect)"
proof -
  from assms(1) have "distinct (map nomutilisateur (lignes bdd))"
    by (simp add: bdd_valide_def)
  then have "find (\<lambda>x. nomutilisateur x = nomutilisateur r) (lignes bdd) = Some r"
    using assms(2) by (rule find_unique)
  then show ?thesis
    using assms(3,4,5) by (simp add: post_verifier_motdepasse_def get_motdepasse_def)
qed

text \<open>
  Claim C6. For a request with a non-empty name and a non-empty password: when no row
  has the name, the answer is not found (404); when a row has it and \<open>argon2.verify\<close>
  returns false on its token and the password, the answer is the mismatch (401), which
  the handler gives on its normal path and not from its \<open>catch\<close>. The two answers differ.
\<close>

theorem verifier_introuvable_ou_incorrect:
  assumes "truthy (c_nomutilisateur b)" and "truthy (c_motdepasse b)"
  shows "((\<forall>r \<in> set (lignes bdd). nomutilisateur r \<noteq> chaine (c_nomutilisateur b)) \<longrightarrow>
       post_verifier_motdepasse a bdd b = non_trouve) \<and>
    (bdd_valide bdd \<and> r \<in> set (lignes bdd) \<and>
       nomutilisateur r = chaine (c_nomutilisateur b) \<and>
       verify a (motdepasse r) (chaine (c_motdepasse b)) = Some False \<longrightarrow>
       post_verifier_motdepasse a bdd b = mot_de_passe_incorrect) \<and>
    status non_trouve = 404 \<and> status mot_de_passe_incorrect = 401 \<and>
    non_trouve \<noteq> mot_de_passe_incorrect"
proof -
  have "post_verifier_motdepasse a bdd b = non_trouve"
    if "\<forall>r \<in> set (lignes bdd). nomutilisateur r \<noteq> chaine (c_nomutilisateur b)"
  proof -
    from that
    have "find (\<lambda>x. nomutilisateur x = chaine (c_nomutilisateur b)) (lignes bdd) = None"
      by (intro find_absent) simp
    with assms show ?thesis
      by (simp add: post_verifier_motdepasse_def get_motdepasse_def)
  qed
  moreover have "post_verifier_motdepasse a bdd b = mot_de_passe_incorrect"
    if "bdd_valide bdd" and "r \<in> set (lignes bdd)"
      and "nomutilisateur r = chaine (c_nomutilisateur b)"
      and "verify a (motdepasse r) (chaine (c_motdepasse b)) = Some False"
  proof -
    from assms(1) that(3) have "c_nomutilisateur b = Some (nomutilisateur r)"
      and "nomutilisateur r \<noteq> []"
      by (cases "c_nomutilisateur b"; simp)+
    from post_verifier_motdepasse_trouve [OF that(1,2) this assms(2), of a] that(4)
    show ?thesis by simp
  qed
  ultimately show ?thesis by (auto simp: reponses_distinctes)
qed

theorem verifier_introuvable_ou_incorrect_witness:
  "truthy (c_nomutilisateur corps_bob) \<and> truthy (c_motdepasse corps_bob) \<and>
   post_verifier_motdepasse argon2_jouet bdd_alice corps_bob = non_trouve \<and>
   truthy (c_nomutilisateur corps_alice_faux) \<and> truthy (c_motdepasse corps_alice_faux) \<and>
   bdd_valide bdd_alice \<and> alice \<in> set (lignes bdd_alice) \<and>
   nomutilisateur alice = chaine (c_nomutilisateur corps_alice_faux) \<and>
   verify argon2_jouet (motdepasse alice) (chaine (c_motdepasse corps_alice_faux)) =
     Some False \<and>
   post_verifier_motdepasse argon2_jouet bdd_alice corps_alice_faux = mot_de_passe_incorrect"
proof -
  have b: "truthy (c_nomutilisateur corps_bob)" "truthy (c_motdepasse corps_bob)"
    by (simp_all add: corps_bob_def)
  have f: "truthy (c_nomutilisateur corps_alice_faux)" "truthy (c_motdepasse corps_alice_faux)"
    by (simp_all add: corps_alice_faux_def)
  have 1: "\<forall>r \<in> set (lignes bdd_alice). nomutilisateur r \<noteq> chaine (c_nomutilisateur corps_bob)"
    by (simp add: bdd_alice_def alice_def corps_bob_def)
  have 2: "alice \<in> set (lignes bdd_alice)" by (simp add: bdd_alice_def)
  have 3: "nomutilisateur alice = chaine (c_nomutilisateur corps_alice_faux)"
    by (simp add: alice_def corps_alice_faux_def)
  have 4: "verify argon2_jouet (motdepasse alice) (chaine (c_motdepasse corps_alice_faux)) =
     Some False"
    by (simp add: argon2_jouet_def alice_def corps_alice_faux_def)
  show ?thesis
    using verifier_introuvable_ou_incorrect [OF b, where bdd = bdd_alice and a = argon2_jouet]
      verifier_introuvable_ou_incorrect [OF f, where bdd = bdd_alice and a = argon2_jouet
        and r = alice]
      b f 1 2 3 4 bdd_valide_alice
    by simp
qed

lemma argon2_correct_jouet: "argon2_correct argon2_jouet"
  by (auto simp: argon2_correct_def argon2_jouet_def)

text \<open>
  The token that a row holds is the one the last successful creation or update with a
  password made for it: both handlers store \<open>argon2.hash\<close> of the password they were sent.
\<close>

lemma post_utilisateurs_stocke:
  assumes "status (fst (post_utilisateurs a sel bdd b)) = 201"
  shows "\<exists>r \<in> set (lignes (snd (post_utilisateurs a sel bdd b))).
    c_nomutilisateur b = Some (nomutilisateur r) \<and> nomutilisateur r \<noteq> [] \<and>
    hash a sel (chaine (c_motdepasse b)) = Some (motdepasse r) \<and>
    chaine (c_motdepasse b) \<noteq> []"
proof -
  from post_utilisateurs_201 [OF assms] obtain h where
    h: "hash a sel (chaine (c_motdepasse b)) = Some h"
    and t: "truthy (c_nomutilisateur b)" "truthy (c_motdepasse b)"
    and l: "lignes (snd (post_utilisateurs a sel bdd b)) = lignes bdd @
          [\<lparr>id_u = prochain_id bdd, nomutilisateur = chaine (c_nomutilisateur b),
            motdepasse = h, email = chaine (c_email b)\<rparr>]"
    by auto
  from t have "c_nomutilisateur b = Some (chaine (c_nomutilisateur b))"
    and "chaine (c_nomutilisateur b) \<noteq> []" and "chaine (c_motdepasse b) \<noteq> []"
    by (cases "c_nomutilisateur b"; cases "c_motdepasse b"; simp)+
  with h show ?thesis unfolding l by simp
qed

lemma appliquer_construire_motdepasse:
  assumes "construire_updates a sel b = Some updates" and "truthy (c_motdepasse b)"
  shows "hash a sel (chaine (c_motdepasse b)) = Some (motdepasse (appliquer updates r))"
  using assms
  by (auto simp: construire_updates_def appliquer_def Let_def split: option.splits if_splits)

lemma put_utilisateur_stocke:
  assumes "fst (put_utilisateur a sel bdd i b) = mis_a_jour" and "truthy (c_motdepasse b)"
    and "r \<in> set (lignes (snd (put_utilisateur a sel bdd i b)))" and "id_u r = i"
  shows "hash a sel (chaine (c_motdepasse b)) = Some (motdepasse r)"
proof -
  from assms(1) obtain updates where u: "construire_updates a sel b = Some updates"
    and s: "snd (put_utilisateur a sel bdd i b) =
      bdd\<lparr>lignes := map (\<lambda>r. if id_u r = i then appliquer updates r else r) (lignes bdd)\<rparr>"
    by (auto simp: put_utilisateur_eq reponses_distinctes reponses_distinctes [symmetric]
        split: option.splits if_splits)
  from assms(3,4) obtain r0 where "r = appliquer updates r0"
    unfolding s by auto
  with appliquer_construire_motdepasse [OF u assms(2)] show ?thesis by simp
qed

text \<open>
  Claim C2. Let a row of a valid table hold the token that \<open>argon2.hash\<close> made of the
  secret \<open>s\<close>, for a library that meets its contract. Then the verification handler,
  asked for the name of this row, gives its positive answer (200) exactly when the
  password sent is \<open>s\<close>; a non-empty password other than \<open>s\<close> gets the mismatch (401).
\<close>

theorem verifier_motdepasse_exact:
  assumes "argon2_correct a" and "bdd_valide bdd" and "r \<in> set (lignes bdd)"
    and "nomutilisateur r \<noteq> []" and "hash a sel s = Some (motdepasse r)" and "s \<noteq> []"
  shows "((post_verifier_motdepasse a bdd
        \<lparr>c_nomutilisateur = Some (nomutilisateur r), c_motdepasse = c, c_email = e\<rparr> =
      mot_de_passe_correct) = (c = Some s)) \<and>
    (truthy c \<and> c \<noteq> Some s \<longrightarrow>
      post_verifier_motdepasse a bdd
        \<lparr>c_nomutilisateur = Some (nomutilisateur r), c_motdepasse = c, c_email = e\<rparr> =
      mot_de_passe_incorrect)"
proof (cases "truthy c")
  case False
  then have "post_verifier_motdepasse a bdd
      \<lparr>c_nomutilisateur = Some (nomutilisateur r), c_motdepasse = c, c_email = e\<rparr> =
    Reponse 400 (erreur ''Nom d'utilisateur et mot de passe requis'')"
    by (simp add: post_verifier_motdepasse_def)
  moreover from False assms(6) have "c \<noteq> Some s" by auto
  ultimately show ?thesis using False by (simp add: mot_de_passe_correct_def)
next
  case True
  then obtain x where c: "c = Some x" and x: "x \<noteq> []" by (cases c) auto
  from assms(1,5) have v: "verify a (motdepasse r) x = Some (x = s)"
    unfolding argon2_correct_def by blast
  have "post_verifier_motdepasse a bdd
      \<lparr>c_nomutilisateur = Some (nomutilisateur r), c_motdepasse = c, c_email = e\<rparr> =
    (if x = s then mot_de_passe_correct else mot_de_passe_incorrect)"
    using post_verifier_motdepasse_trouve [OF assms(2,3), of
        "\<lparr>c_nomutilisateur = Some (nomutilisateur r), c_motdepasse = c, c_email = e\<rparr>" a]
      assms(4) True v c
    by simp
  then show ?thesis using c by (auto simp: reponses_distinctes reponses_distinctes [symmetric])
qed

theorem verifier_motdepasse_exact_witness:
  "argon2_correct argon2_jouet \<and> bdd_valide bdd_alice \<and> alice \<in> set (lignes bdd_alice) \<and>
   nomutilisateur alice = ''alice'' \<and>
   hash argon2_jouet [] ''p@ss1'' = Some (motdepasse alice) \<and>
   post_verifier_motdepasse argon2_jouet bdd_alice
     \<lparr>c_nomutilisateur = Some ''alice'', c_motdepasse = Some ''p@ss1'', c_email = None\<rparr> =
     mot_de_passe_correct \<and>
   post_verifier_motdepasse argon2_jouet bdd_alice
     \<lparr>c_nomutilisateur = Some ''alice'', c_motdepasse = Some ''p@ss2'', c_email = None\<rparr> =
     mot_de_passe_incorrect"
proof -
  have 1: "alice \<in> set (lignes bdd_alice)" by (simp add: bdd_alice_def)
  have 2: "nomutilisateur alice = ''alice''" by (simp add: alice_def)
  then have 3: "nomutilisateur alice \<noteq> []" by simp
  have 4: "hash argon2_jouet [] ''p@ss1'' = Some (motdepasse alice)"
    by (simp add: argon2_jouet_def alice_def)
  have 5: "''p@ss1'' \<noteq> []" by simp
  note exact = verifier_motdepasse_exact [OF argon2_correct_jouet bdd_valide_alice 1 3 4 5]
  show ?thesis
    using exact [of "Some ''p@ss1''" None] exact [of "Some ''p@ss2''" None]
      argon2_correct_jouet bdd_valide_alice 1 2 4
    by simp
qed

section \<open>Updating an account\<close>

lemma reponses_distinctes_requis:
  "tous_requis_variante \<noteq> erreur_mise_a_jour_variante"
  "tous_requis_variante \<noteq> non_trouve_variante" "tous_requis_variante \<noteq> mis_a_jour"
  "erreur_mise_a_jour_variante \<noteq> non_trouve_variante"
  "erreur_mise_a_jour_variante \<noteq> mis_a_jour" "non_trouve_variante \<noteq> mis_a_jour"
  by (simp_all add: tous_requis_variante_def erreur_mise_a_jour_variante_def
      non_trouve_variante_def mis_a_jour_def error_obj_def message_def)

lemma construire_updates_colonnes:
  assumes "construire_updates a sel b = Some updates"
  shows "map fst updates =
    filter (\<lambda>c. truthy (champ b c)) [Nomutilisateur, Motdepasse, Email]"
  using assms
  by (auto simp: construire_updates_def Let_def split: option.splits if_splits)

lemma appliquer_construire:
  assumes "construire_updates a sel b = Some updates"
    and "truthy (c_motdepasse b) \<longrightarrow> hash a sel (chaine (c_motdepasse b)) = Some h"
  shows "appliquer updates r = ligne_attendue b h r"
  using assms
  by (cases r)
    (auto simp: construire_updates_def Let_def appliquer_def ligne_attendue_def
      split: option.splits if_splits)

lemma construire_updates_hash:
  assumes "construire_updates a sel b = Some updates"
  shows "\<exists>h. truthy (c_motdepasse b) \<longrightarrow> hash a sel (chaine (c_motdepasse b)) = Some h"
  using assms
  by (auto simp: construire_updates_def Let_def split: option.splits if_splits)

lemma construire_updates_cles:
  assumes "construire_updates a sel b = Some updates"
  shows "(c \<in> fst ` set updates) = truthy (champ b c)"
proof -
  from assms have "set (map fst updates) =
    set (filter (\<lambda>c. truthy (champ b c)) [Nomutilisateur, Motdepasse, Email])"
    by (simp only: construire_updates_colonnes)
  then have "fst ` set updates =
    {c \<in> set [Nomutilisateur, Motdepasse, Email]. truthy (champ b c)}"
    by (simp only: set_map set_filter)
  then show ?thesis by (cases c) auto
qed

text \<open>
  For an id that a row has, the statement of the update throws exactly when a non-empty
  name or email of the request is that of a row with another id.
\<close>

lemma conflit_pris:
  assumes "\<exists>r \<in> set (lignes bdd). id_u r = i"
    and "construire_updates a sel b = Some updates"
  shows "conflit bdd updates i = pris bdd i b"
proof -
  from construire_updates_hash [OF assms(2)] obtain h where
    "truthy (c_motdepasse b) \<longrightarrow> hash a sel (chaine (c_motdepasse b)) = Some h" ..
  with assms(2) have l: "appliquer updates r = ligne_attendue b h r" for r
    by (rule appliquer_construire)
  have n: "(Nomutilisateur \<in> fst ` set updates) = truthy (c_nomutilisateur b)"
    using construire_updates_cles [OF assms(2), of Nomutilisateur] by simp
  have e: "(Email \<in> fst ` set updates) = truthy (c_email b)"
    using construire_updates_cles [OF assms(2), of Email] by simp
  show ?thesis
    using assms(1) unfolding conflit_def pris_def l n e
    by (auto simp: ligne_attendue_def)
qed

lemma conflit_complet_pris:
  assumes "\<exists>r \<in> set (lignes bdd). id_u r = i"
    and "truthy (c_nomutilisateur b)" and "truthy (c_email b)"
  shows "conflit bdd [(Nomutilisateur, chaine (c_nomutilisateur b)), (Motdepasse, h),
    (Email, chaine (c_email b))] i = pris bdd i b"
  using assms unfolding conflit_def pris_def
  by (auto simp: appliquer_def)

lemma appliquer_complet:
  assumes "truthy (c_nomutilisateur b)" and "truthy (c_motdepasse b)" and "truthy (c_email b)"
  shows "appliquer [(Nomutilisateur, chaine (c_nomutilisateur b)), (Motdepasse, h),
    (Email, chaine (c_email b))] r = ligne_attendue b h r"
  using assms by (cases r) (simp add: appliquer_def ligne_attendue_def)

text \<open>
  Claim C1, as amended. Take an id that a row of the table has and a request with at
  least one non-empty field. When the hasher throws on the non-empty password of the
  request, or a non-empty name or email of the request is that of a row with another
  id, the update handler gives its failure answer and the table is unchanged. In every
  other case it succeeds, and then: the columns of the statement are exactly the fields
  of the request that are non-empty, in the order name, password, email; in each row
  with the id, a non-empty name or email replaces its column, a non-empty password is
  hashed and the token replaces the column \<open>motdepasse\<close>, and a column whose field is
  absent or empty keeps its value; every other row and the counter are unchanged. The
  variant of the handler that runs the middleware first refuses a request with an
  absent or empty field and leaves the table unchanged; on three non-empty fields it
  fails and succeeds in the same cases, and on success replaces the three columns in
  the same way.
\<close>

theorem put_utilisateur_champs:
  assumes "\<exists>r \<in> set (lignes bdd). id_u r = i"
    and "truthy (c_nomutilisateur b) \<or> truthy (c_motdepasse b) \<or> truthy (c_email b)"
  shows "((truthy (c_motdepasse b) \<and> hash a sel (chaine (c_motdepasse b)) = None) \<or>
        pris bdd i b \<longrightarrow>
      put_utilisateur a sel bdd i b = (erreur_mise_a_jour, bdd)) \<and>
    ((truthy (c_motdepasse b) \<longrightarrow> hash a sel (chaine (c_motdepasse b)) = Some h) \<and>
        \<not> pris bdd i b \<longrightarrow>
      (\<exists>updates. construire_updates a sel b = Some updates \<and>
         map fst updates =
           filter (\<lambda>c. truthy (champ b c)) [Nomutilisateur, Motdepasse, Email] \<and>
         put_utilisateur a sel bdd i b =
           (mis_a_jour,
            bdd\<lparr>lignes :=
              map (\<lambda>r. if id_u r = i then ligne_attendue b h r else r) (lignes bdd)\<rparr>))) \<and>
    (\<not> (truthy (c_nomutilisateur b) \<and> truthy (c_motdepasse b) \<and> truthy (c_email b)) \<longrightarrow>
      put_utilisateur_complet a sel bdd i b = (tous_requis_variante, bdd)) \<and>
    (truthy (c_nomutilisateur b) \<and> truthy (c_motdepasse b) \<and> truthy (c_email b) \<and>
        (hash a sel (chaine (c_motdepasse b)) = None \<or> pris bdd i b) \<longrightarrow>
      put_utilisateur_complet a sel bdd i b = (erreur_mise_a_jour_variante, bdd)) \<and>
    (truthy (c_nomutilisateur b) \<and> truthy (c_motdepasse b) \<and> truthy (c_email b) \<and>
        hash a sel (chaine (c_motdepasse b)) = Some h \<and> \<not> pris bdd i b \<longrightarrow>
      put_utilisateur_complet a sel bdd i b =
        (mis_a_jour,
         bdd\<lparr>lignes :=
           map (\<lambda>r. if id_u r = i then ligne_attendue b h r else r) (lignes bdd)\<rparr>))"
proof -
  have 1: "put_utilisateur a sel bdd i b = (erreur_mise_a_jour, bdd)"
    if "(truthy (c_motdepasse b) \<and> hash a sel (chaine (c_motdepasse b)) = None) \<or>
        pris bdd i b"
  proof (cases "construire_updates a sel b")
    case None
    with assms(2) show ?thesis by (auto simp: put_utilisateur_eq)
  next
    case (Some updates)
    then have "\<not> (truthy (c_motdepasse b) \<and> hash a sel (chaine (c_motdepasse b)) = None)"
      by (auto simp: construire_updates_def Let_def split: option.splits)
    with that have "pris bdd i b" by blast
    then have "conflit bdd updates i" using conflit_pris [OF assms(1) Some] by simp
    with assms(2) Some show ?thesis by (auto simp: put_utilisateur_eq)
  qed
  have 2: "\<exists>updates. construire_updates a sel b = Some updates \<and>
         map fst updates =
           filter (\<lambda>c. truthy (champ b c)) [Nomutilisateur, Motdepasse, Email] \<and>
         put_utilisateur a sel bdd i b =
           (mis_a_jour,
            bdd\<lparr>lignes :=
              map (\<lambda>r. if id_u r = i then ligne_attendue b h r else r) (lignes bdd)\<rparr>)"
    if h: "truthy (c_motdepasse b) \<longrightarrow> hash a sel (chaine (c_motdepasse b)) = Some h"
      and np: "\<not> pris bdd i b"
  proof -
    from h have "construire_updates a sel b \<noteq> None"
      by (auto simp: construire_updates_def Let_def split: option.splits)
    then obtain updates where u: "construire_updates a sel b = Some updates" by blast
    from np have nc: "\<not> conflit bdd updates i" using conflit_pris [OF assms(1) u] by simp
    have "appliquer updates r = ligne_attendue b h r" for r
      using u h by (rule appliquer_construire)
    with assms nc u have "put_utilisateur a sel bdd i b =
      (mis_a_jour,
       bdd\<lparr>lignes :=
         map (\<lambda>r. if id_u r = i then ligne_attendue b h r else r) (lignes bdd)\<rparr>)"
      by (auto simp: put_utilisateur_eq)
    with u construire_updates_colonnes [OF u] show ?thesis by blast
  qed
  have 3: "put_utilisateur_complet a sel bdd i b = (tous_requis_variante, bdd)"
    if "\<not> (truthy (c_nomutilisateur b) \<and> truthy (c_motdepasse b) \<and> truthy (c_email b))"
    using that by (auto simp: put_utilisateur_complet_def validateUserInput_variante_def)
  have 4: "put_utilisateur_complet a sel bdd i b = (erreur_mise_a_jour_variante, bdd)"
    if t: "truthy (c_nomutilisateur b)" "truthy (c_motdepasse b)" "truthy (c_email b)"
      and f: "hash a sel (chaine (c_motdepasse b)) = None \<or> pris bdd i b"
  proof (cases "hash a sel (chaine (c_motdepasse b))")
    case None
    with t show ?thesis
      by (simp add: put_utilisateur_complet_def validateUserInput_variante_def)
  next
    case (Some h')
    with f have "pris bdd i b" by simp
    then have "conflit bdd [(Nomutilisateur, chaine (c_nomutilisateur b)), (Motdepasse, h'),
      (Email, chaine (c_email b))] i"
      using conflit_complet_pris [OF assms(1) t(1) t(3)] by simp
    with t Some show ?thesis
      by (simp add: put_utilisateur_complet_eq validateUserInput_variante_def)
  qed
  have 5: "put_utilisateur_complet a sel bdd i b =
        (mis_a_jour,
         bdd\<lparr>lignes :=
           map (\<lambda>r. if id_u r = i then ligne_attendue b h r else r) (lignes bdd)\<rparr>)"
    if t: "truthy (c_nomutilisateur b)" "truthy (c_motdepasse b)" "truthy (c_email b)"
      and h: "hash a sel (chaine (c_motdepasse b)) = Some h" and np: "\<not> pris bdd i b"
  proof -
    from np have "\<not> conflit bdd [(Nomutilisateur, chaine (c_nomutilisateur b)),
      (Motdepasse, h), (Email, chaine (c_email b))] i"
      using conflit_complet_pris [OF assms(1) t(1) t(3)] by simp
    with t h assms(1) show ?thesis
      by (simp add: put_utilisateur_complet_eq validateUserInput_variante_def
          appliquer_complet [OF t])
  qed
  from 1 2 3 4 5 show ?thesis by blast
qed

theorem put_utilisateur_champs_witness:
  "id_u alice = 1 \<and> alice \<in> set (lignes bdd_alice) \<and>
   truthy (c_motdepasse corps_secret) \<and>
   hash argon2_jouet [] (chaine (c_motdepasse corps_secret)) = Some ''$argon2id$s3cret'' \<and>
   \<not> pris bdd_alice 1 corps_secret \<and>
   put_utilisateur argon2_jouet [] bdd_alice 1 corps_secret =
     (mis_a_jour, \<lparr>lignes = [alice\<lparr>motdepasse := ''$argon2id$s3cret''\<rparr>], seq = 1\<rparr>) \<and>
   truthy (c_nomutilisateur corps_alice2) \<and> truthy (c_motdepasse corps_alice2) \<and>
   truthy (c_email corps_alice2) \<and>
   hash argon2_jouet [] (chaine (c_motdepasse corps_alice2)) = Some ''$argon2id$s3cret'' \<and>
   \<not> pris bdd_alice 1 corps_alice2 \<and>
   put_utilisateur_complet argon2_jouet [] bdd_alice 1 corps_alice2 =
     (mis_a_jour,
      \<lparr>lignes = [\<lparr>id_u = 1, nomutilisateur = ''alice2'', motdepasse = ''$argon2id$s3cret'',
                  email = ''a2@x.io''\<rparr>],
       seq = 1\<rparr>) \<and>
   truthy (c_nomutilisateur corps_nom_bob) \<and> pris bdd_alice_bob 1 corps_nom_bob \<and>
   put_utilisateur argon2_jouet [] bdd_alice_bob 1 corps_nom_bob =
     (erreur_mise_a_jour, bdd_alice_bob)"
proof -
  have a: "id_u alice = 1" by (simp add: alice_def)
  have m: "alice \<in> set (lignes bdd_alice)" by (simp add: bdd_alice_def)
  from a m have 1: "\<exists>r \<in> set (lignes bdd_alice). id_u r = 1" by blast
  have ts: "truthy (c_motdepasse corps_secret)" by (simp add: corps_secret_def)
  have hs: "hash argon2_jouet [] (chaine (c_motdepasse corps_secret)) =
    Some ''$argon2id$s3cret''"
    by (simp add: argon2_jouet_def corps_secret_def)
  have ps: "\<not> pris bdd_alice 1 corps_secret"
    by (simp add: pris_def bdd_alice_def alice_def)
  from put_utilisateur_champs [OF 1, of corps_secret argon2_jouet "[]" "''$argon2id$s3cret''"]
    ts hs ps
  have "put_utilisateur argon2_jouet [] bdd_alice 1 corps_secret =
    (mis_a_jour,
     bdd_alice\<lparr>lignes :=
       map (\<lambda>r. if id_u r = 1 then ligne_attendue corps_secret ''$argon2id$s3cret'' r else r)
         (lignes bdd_alice)\<rparr>)"
    by blast
  then have s: "put_utilisateur argon2_jouet [] bdd_alice 1 corps_secret =
     (mis_a_jour, \<lparr>lignes = [alice\<lparr>motdepasse := ''$argon2id$s3cret''\<rparr>], seq = 1\<rparr>)"
    by (simp add: bdd_alice_def alice_def ligne_attendue_def corps_secret_def)
  have t2: "truthy (c_nomutilisateur corps_alice2)" "truthy (c_motdepasse corps_alice2)"
    "truthy (c_email corps_alice2)"
    by (simp_all add: corps_alice2_def)
  have h2: "hash argon2_jouet [] (chaine (c_motdepasse corps_alice2)) =
    Some ''$argon2id$s3cret''"
    by (simp add: argon2_jouet_def corps_alice2_def)
  have p2: "\<not> pris bdd_alice 1 corps_alice2"
    by (simp add: pris_def bdd_alice_def alice_def)
  from put_utilisateur_champs [OF 1, of corps_alice2 argon2_jouet "[]" "''$argon2id$s3cret''"]
    t2 h2 p2
  have "put_utilisateur_complet argon2_jouet [] bdd_alice 1 corps_alice2 =
    (mis_a_jour,
     bdd_alice\<lparr>lignes :=
       map (\<lambda>r. if id_u r = 1 then ligne_attendue corps_alice2 ''$argon2id$s3cret'' r else r)
         (lignes bdd_alice)\<rparr>)"
    by blast
  then have c: "put_utilisateur_complet argon2_jouet [] bdd_alice 1 corps_alice2 =
     (mis_a_jour,
      \<lparr>lignes = [\<lparr>id_u = 1, nomutilisateur = ''alice2'', motdepasse = ''$argon2id$s3cret'',
                  email = ''a2@x.io''\<rparr>],
       seq = 1\<rparr>)"
    by (simp add: bdd_alice_def alice_def ligne_attendue_def corps_alice2_def)
  have 3: "\<exists>r \<in> set (lignes bdd_alice_bob). id_u r = 1"
    by (simp add: bdd_alice_bob_def alice_def)
  have tb: "truthy (c_nomutilisateur corps_nom_bob)" by (simp add: corps_nom_bob_def)
  have pb: "pris bdd_alice_bob 1 corps_nom_bob"
    by (simp add: pris_def bdd_alice_bob_def alice_def bob_def corps_nom_bob_def)
  from put_utilisateur_champs [OF 3, of corps_nom_bob argon2_jouet "[]"] tb pb
  have f: "put_utilisateur argon2_jouet [] bdd_alice_bob 1 corps_nom_bob =
     (erreur_mise_a_jour, bdd_alice_bob)"
    by blast
  from a m ts hs ps s t2 h2 p2 c tb pb f show ?thesis by blast
qed

text \<open>
  The claim as it was stated fails in three places. On a request that supplies the
  name as the empty string together with an email, the update succeeds and its
  statement sets the column \<open>email\<close> alone, although the name was supplied. With a
  hasher that throws, a supplied password is not written: the handler fails. A
  supplied name that another account has is not written either: the statement throws
  and the handler fails.
\<close>

theorem put_utilisateur_champs_counterexample:
  "c_nomutilisateur corps_nom_vide_email = Some [] \<and>
   c_email corps_nom_vide_email = Some ''new@x'' \<and>
   construire_updates argon2_jouet [] corps_nom_vide_email = Some [(Email, ''new@x'')] \<and>
   put_utilisateur argon2_jouet [] bdd_alice 1 corps_nom_vide_email =
     (mis_a_jour, \<lparr>lignes = [alice\<lparr>email := ''new@x''\<rparr>], seq = 1\<rparr>) \<and>
   c_motdepasse corps_secret = Some ''s3cret'' \<and>
   put_utilisateur argon2_en_panne [] bdd_alice 1 corps_secret =
     (erreur_mise_a_jour, bdd_alice) \<and>
   c_nomutilisateur corps_nom_bob = Some ''bob'' \<and>
   put_utilisateur argon2_jouet [] bdd_alice_bob 1 corps_nom_bob =
     (erreur_mise_a_jour, bdd_alice_bob)"
proof -
  have "put_utilisateur argon2_jouet [] bdd_alice 1 corps_nom_vide_email =
     (mis_a_jour, \<lparr>lignes = [alice\<lparr>email := ''new@x''\<rparr>], seq = 1\<rparr>)"
    by (simp add: put_utilisateur_eq construire_updates_def corps_nom_vide_email_def
        conflit_def bdd_alice_def alice_def appliquer_def)
  moreover have "put_utilisateur argon2_en_panne [] bdd_alice 1 corps_secret =
     (erreur_mise_a_jour, bdd_alice)"
    by (simp add: put_utilisateur_eq construire_updates_def corps_secret_def
        argon2_en_panne_def)
  moreover have "put_utilisateur argon2_jouet [] bdd_alice_bob 1 corps_nom_bob =
     (erreur_mise_a_jour, bdd_alice_bob)"
    by (simp add: put_utilisateur_eq construire_updates_def corps_nom_bob_def conflit_def
        bdd_alice_bob_def alice_def bob_def appliquer_def)
  moreover have "construire_updates argon2_jouet [] corps_nom_vide_email =
    Some [(Email, ''new@x'')]"
    by (simp add: construire_updates_def corps_nom_vide_email_def)
  ultimately show ?thesis
    by (simp add: corps_nom_vide_email_def corps_secret_def corps_nom_bob_def)
qed

text \<open>
  Claim C7, as amended. The update handler of \<^verbatim>\<open>src/index.ts\<close> answers that a field
  is required exactly when each of the three fields is absent or the empty string. It
  answers not found only when some field is non-empty and no row has the id; and when
  some field is non-empty, the hasher does not throw on a non-empty password and no
  row has the id, it answers not found. The variant of the handler that runs the
  middleware first answers that all fields are required exactly when some field is
  absent or the empty string. It answers not found only when the three fields are
  non-empty and no row has the id; and when the three fields are non-empty, the hasher
  does not throw and no row has the id, it answers not found.
\<close>

theorem put_utilisateur_validation_introuvable:
  "((fst (put_utilisateur a sel bdd i b) = champ_requis) =
      (\<not> truthy (c_nomutilisateur b) \<and> \<not> truthy (c_motdepasse b) \<and> \<not> truthy (c_email b))) \<and>
   (fst (put_utilisateur a sel bdd i b) = non_trouve \<longrightarrow>
      (truthy (c_nomutilisateur b) \<or> truthy (c_motdepasse b) \<or> truthy (c_email b)) \<and>
      (\<forall>r \<in> set (lignes bdd). id_u r \<noteq> i)) \<and>
   ((truthy (c_nomutilisateur b) \<or> truthy (c_motdepasse b) \<or> truthy (c_email b)) \<and>
    (truthy (c_motdepasse b) \<longrightarrow> hash a sel (chaine (c_motdepasse b)) \<noteq> None) \<and>
    (\<forall>r \<in> set (lignes bdd). id_u r \<noteq> i) \<longrightarrow>
      fst (put_utilisateur a sel bdd i b) = non_trouve) \<and>
   ((fst (put_utilisateur_complet a sel bdd i b) = tous_requis_variante) =
      (\<not> truthy (c_nomutilisateur b) \<or> \<not> truthy (c_motdepasse b) \<or> \<not> truthy (c_email b))) \<and>
   (fst (put_utilisateur_complet a sel bdd i b) = non_trouve_variante \<longrightarrow>
      truthy (c_nomutilisateur b) \<and> truthy (c_motdepasse b) \<and> truthy (c_email b) \<and>
      (\<forall>r \<in> set (lignes bdd). id_u r \<noteq> i)) \<and>
   (truthy (c_nomutilisateur b) \<and> truthy (c_motdepasse b) \<and> truthy (c_email b) \<and>
    hash a sel (chaine (c_motdepasse b)) \<noteq> None \<and>
    (\<forall>r \<in> set (lignes bdd). id_u r \<noteq> i) \<longrightarrow>
      fst (put_utilisateur_complet a sel bdd i b) = non_trouve_variante)"
proof -
  have 1: "(fst (put_utilisateur a sel bdd i b) = champ_requis) =
      (\<not> truthy (c_nomutilisateur b) \<and> \<not> truthy (c_motdepasse b) \<and> \<not> truthy (c_email b))"
    by (auto simp: put_utilisateur_eq reponses_distinctes reponses_distinctes [symmetric]
        split: option.splits)
  have 2: "(truthy (c_nomutilisateur b) \<or> truthy (c_motdepasse b) \<or> truthy (c_email b)) \<and>
      (\<forall>r \<in> set (lignes bdd). id_u r \<noteq> i)"
    if "fst (put_utilisateur a sel bdd i b) = non_trouve"
    using that
    by (auto simp: put_utilisateur_eq reponses_distinctes reponses_distinctes [symmetric]
        split: option.splits if_splits)
  have 3: "fst (put_utilisateur a sel bdd i b) = non_trouve"
    if t: "truthy (c_nomutilisateur b) \<or> truthy (c_motdepasse b) \<or> truthy (c_email b)"
      and h: "truthy (c_motdepasse b) \<longrightarrow> hash a sel (chaine (c_motdepasse b)) \<noteq> None"
      and n: "\<forall>r \<in> set (lignes bdd). id_u r \<noteq> i"
  proof -
    from h have "construire_updates a sel b \<noteq> None"
      by (auto simp: construire_updates_def Let_def split: option.splits)
    then obtain updates where u: "construire_updates a sel b = Some updates" by blast
    from n have "\<not> conflit bdd updates i" by (auto simp: conflit_def)
    with t n u show ?thesis by (auto simp: put_utilisateur_eq)
  qed
  have 4: "(fst (put_utilisateur_complet a sel bdd i b) = tous_requis_variante) =
      (\<not> truthy (c_nomutilisateur b) \<or> \<not> truthy (c_motdepasse b) \<or> \<not> truthy (c_email b))"
    by (auto simp: put_utilisateur_complet_eq validateUserInput_variante_def Let_def
        reponses_distinctes_requis reponses_distinctes_requis [symmetric]
        split: option.splits)
  have 5: "truthy (c_nomutilisateur b) \<and> truthy (c_motdepasse b) \<and> truthy (c_email b) \<and>
      (\<forall>r \<in> set (lignes bdd). id_u r \<noteq> i)"
    if "fst (put_utilisateur_complet a sel bdd i b) = non_trouve_variante"
    using that
    by (auto simp: put_utilisateur_complet_eq validateUserInput_variante_def Let_def
        reponses_distinctes_requis reponses_distinctes_requis [symmetric]
        split: option.splits if_splits)
  have 6: "fst (put_utilisateur_complet a sel bdd i b) = non_trouve_variante"
    if t: "truthy (c_nomutilisateur b)" "truthy (c_motdepasse b)" "truthy (c_email b)"
      and h: "hash a sel (chaine (c_motdepasse b)) \<noteq> None"
      and n: "\<forall>r \<in> set (lignes bdd). id_u r \<noteq> i"
  proof -
    from h obtain h' where h': "hash a sel (chaine (c_motdepasse b)) = Some h'" by blast
    from n have "\<not> conflit bdd u i" for u by (auto simp: conflit_def)
    with t h' n show ?thesis
      by (simp add: put_utilisateur_complet_eq validateUserInput_variante_def)
  qed
  from 1 2 3 4 5 6 show ?thesis by blast
qed

theorem put_utilisateur_validation_introuvable_witness:
  "fst (put_utilisateur argon2_jouet [] bdd_alice 2 corps_secret) = non_trouve \<and>
   truthy (c_motdepasse corps_secret) \<and>
   hash argon2_jouet [] (chaine (c_motdepasse corps_secret)) = Some ''$argon2id$s3cret'' \<and>
   id_u alice = 1 \<and> lignes bdd_alice = [alice] \<and>
   truthy (c_nomutilisateur corps_alice2) \<and> truthy (c_motdepasse corps_alice2) \<and>
   truthy (c_email corps_alice2) \<and>
   hash argon2_jouet [] (chaine (c_motdepasse corps_alice2)) = Some ''$argon2id$s3cret'' \<and>
   fst (put_utilisateur_complet argon2_jouet [] bdd_alice 2 corps_alice2) =
     non_trouve_variante"
proof -
  have t: "truthy (c_motdepasse corps_secret)" by (simp add: corps_secret_def)
  have h: "hash argon2_jouet [] (chaine (c_motdepasse corps_secret)) = Some ''$argon2id$s3cret''"
    by (simp add: argon2_jouet_def corps_secret_def)
  have a: "id_u alice = 1" by (simp add: alice_def)
  have l: "lignes bdd_alice = [alice]" by (simp add: bdd_alice_def)
  from a l have n: "\<forall>r \<in> set (lignes bdd_alice). id_u r \<noteq> 2" by simp
  from put_utilisateur_validation_introuvable [of argon2_jouet "[]" bdd_alice 2 corps_secret]
    t h n
  have 1: "fst (put_utilisateur argon2_jouet [] bdd_alice 2 corps_secret) = non_trouve"
    by simp
  have t2: "truthy (c_nomutilisateur corps_alice2)" "truthy (c_motdepasse corps_alice2)"
    "truthy (c_email corps_alice2)"
    by (simp_all add: corps_alice2_def)
  have h2: "hash argon2_jouet [] (chaine (c_motdepasse corps_alice2)) =
    Some ''$argon2id$s3cret''"
    by (simp add: argon2_jouet_def corps_alice2_def)
  from put_utilisateur_validation_introuvable [of argon2_jouet "[]" bdd_alice 2 corps_alice2]
    t2 h2 n
  have 2: "fst (put_utilisateur_complet argon2_jouet [] bdd_alice 2 corps_alice2) =
     non_trouve_variante"
    by simp
  from 1 t h a l t2 h2 2 show ?thesis by blast
qed

text \<open>
  The claim as it was stated fails in three places. A request whose name is the empty
  string, so is not absent, gets the answer that a field is required. With a hasher
  that throws, a request with a password for an id that no row has gets the failure
  answer of the handler and not the answer not found. In the variant with the
  middleware, a request with an email alone gets the answer that all fields are
  required.
\<close>

theorem put_utilisateur_validation_introuvable_counterexample:
  "c_nomutilisateur corps_nom_vide = Some [] \<and>
   fst (put_utilisateur argon2_jouet [] bdd_alice 1 corps_nom_vide) = champ_requis \<and>
   truthy (c_motdepasse corps_secret) \<and> lignes base_vide = [] \<and>
   fst (put_utilisateur argon2_en_panne [] base_vide 1 corps_secret) = erreur_mise_a_jour \<and>
   erreur_mise_a_jour \<noteq> non_trouve \<and>
   c_email corps_email = Some ''new@x'' \<and>
   fst (put_utilisateur_complet argon2_jouet [] bdd_alice 1 corps_email) = tous_requis_variante"
  by (simp add: put_utilisateur_eq put_utilisateur_complet_eq validateUserInput_variante_def
      construire_updates_def corps_nom_vide_def corps_secret_def corps_email_def
      argon2_en_panne_def base_vide_def reponses_distinctes)

section \<open>Empty fields in an update\<close>

lemma truthy_omettre_vides [simp]:
  "truthy (c_nomutilisateur (omettre_vides b)) = truthy (c_nomutilisateur b)"
  "truthy (c_motdepasse (omettre_vides b)) = truthy (c_motdepasse b)"
  "truthy (c_email (omettre_vides b)) = truthy (c_email b)"
  by (simp_all add: omettre_vides_def)

lemma construire_updates_omettre_vides:
  "construire_updates a sel (omettre_vides b) = construire_updates a sel b"
  by (simp add: construire_updates_def omettre_vides_def)

lemma put_utilisateur_colonne_inchangee:
  assumes "\<not> truthy (champ b c)"
  shows "map nomutilisateur (lignes (snd (put_utilisateur a sel bdd i b))) =
           map nomutilisateur (lignes bdd) \<or> c \<noteq> Nomutilisateur"
    and "map motdepasse (lignes (snd (put_utilisateur a sel bdd i b))) =
           map motdepasse (lignes bdd) \<or> c \<noteq> Motdepasse"
    and "map email (lignes (snd (put_utilisateur a sel bdd i b))) =
           map email (lignes bdd) \<or> c \<noteq> Email"
proof -
  have *: "lignes (snd (put_utilisateur a sel bdd i b)) = lignes bdd \<or>
    (\<exists>h. lignes (snd (put_utilisateur a sel bdd i b)) =
       map (\<lambda>r. if id_u r = i then ligne_attendue b h r else r) (lignes bdd))"
  proof (cases "construire_updates a sel b")
    case None
    then show ?thesis by (simp add: put_utilisateur_eq)
  next
    case (Some updates)
    from construire_updates_hash [OF Some] obtain h where
      "truthy (c_motdepasse b) \<longrightarrow> hash a sel (chaine (c_motdepasse b)) = Some h" ..
    with Some have "appliquer updates r = ligne_attendue b h r" for r
      by (rule appliquer_construire)
    with Some show ?thesis by (auto simp: put_utilisateur_eq)
  qed
  have n: "map nomutilisateur (map (\<lambda>r. if id_u r = i then ligne_attendue b h r else r) xs) =
    map nomutilisateur xs" if "\<not> truthy (c_nomutilisateur b)" for h xs
    using that by (induction xs) (simp_all add: ligne_attendue_def)
  have m: "map motdepasse (map (\<lambda>r. if id_u r = i then ligne_attendue b h r else r) xs) =
    map motdepasse xs" if "\<not> truthy (c_motdepasse b)" for h xs
    using that by (induction xs) (simp_all add: ligne_attendue_def)
  have e: "map email (map (\<lambda>r. if id_u r = i then ligne_attendue b h r else r) xs) =
    map email xs" if "\<not> truthy (c_email b)" for h xs
    using that by (induction xs) (simp_all add: ligne_attendue_def)
  show "map nomutilisateur (lignes (snd (put_utilisateur a sel bdd i b))) =
           map nomutilisateur (lignes bdd) \<or> c \<noteq> Nomutilisateur"
    using * assms n by (cases c) auto
  show "map motdepasse (lignes (snd (put_utilisateur a sel bdd i b))) =
           map motdepasse (lignes bdd) \<or> c \<noteq> Motdepasse"
    using * assms m by (cases c) auto
  show "map email (lignes (snd (put_utilisateur a sel bdd i b))) =
           map email (lignes bdd) \<or> c \<noteq> Email"
    using * assms e by (cases c) auto
qed

text \<open>
  Claim C10. In the update handler a field sent as the empty string counts as an absent
  field: the handler does on a request what it does on the request with its empty
  fields left out (same answer, same table); the column of an empty field is not among
  the columns of the statement; the values of that column in the table are those of
  before, whatever the answer; and a request whose fields are all empty or absent gets
  the answer that a field is required, with the table unchanged.
\<close>

theorem put_utilisateur_chaine_vide:
  "put_utilisateur a sel bdd i b = put_utilisateur a sel bdd i (omettre_vides b) \<and>
   (\<forall>updates c. construire_updates a sel b = Some updates \<and> champ b c = Some [] \<longrightarrow>
      c \<notin> fst ` set updates) \<and>
   (c_nomutilisateur b = Some [] \<longrightarrow>
      map nomutilisateur (lignes (snd (put_utilisateur a sel bdd i b))) =
        map nomutilisateur (lignes bdd)) \<and>
   (c_motdepasse b = Some [] \<longrightarrow>
      map motdepasse (lignes (snd (put_utilisateur a sel bdd i b))) =
        map motdepasse (lignes bdd)) \<and>
   (c_email b = Some [] \<longrightarrow>
      map email (lignes (snd (put_utilisateur a sel bdd i b))) = map email (lignes bdd)) \<and>
   (\<not> truthy (c_nomutilisateur b) \<and> \<not> truthy (c_motdepasse b) \<and> \<not> truthy (c_email b) \<longrightarrow>
      put_utilisateur a sel bdd i b = (champ_requis, bdd))"
proof -
  have 1: "put_utilisateur a sel bdd i b = put_utilisateur a sel bdd i (omettre_vides b)"
    by (simp add: put_utilisateur_def construire_updates_omettre_vides)
  have 2: "c \<notin> fst ` set updates"
    if "construire_updates a sel b = Some updates" and "champ b c = Some []" for updates c
  proof -
    from that(1) have "set (map fst updates) =
      set (filter (\<lambda>c. truthy (champ b c)) [Nomutilisateur, Motdepasse, Email])"
      by (simp only: construire_updates_colonnes)
    then have "fst ` set updates =
      {c \<in> set [Nomutilisateur, Motdepasse, Email]. truthy (champ b c)}"
      by (simp only: set_map set_filter)
    then have "c \<in> fst ` set updates \<Longrightarrow> truthy (champ b c)" by blast
    with that(2) show ?thesis by auto
  qed
  have 3: "map nomutilisateur (lignes (snd (put_utilisateur a sel bdd i b))) =
        map nomutilisateur (lignes bdd)" if "c_nomutilisateur b = Some []"
    using put_utilisateur_colonne_inchangee(1) [of b Nomutilisateur a sel bdd i] that by simp
  have 4: "map motdepasse (lignes (snd (put_utilisateur a sel bdd i b))) =
        map motdepasse (lignes bdd)" if "c_motdepasse b = Some []"
    using put_utilisateur_colonne_inchangee(2) [of b Motdepasse a sel bdd i] that by simp
  have 5: "map email (lignes (snd (put_utilisateur a sel bdd i b))) =
        map email (lignes bdd)" if "c_email b = Some []"
    using put_utilisateur_colonne_inchangee(3) [of b Email a sel bdd i] that by simp
  have 6: "put_utilisateur a sel bdd i b = (champ_requis, bdd)"
    if "\<not> truthy (c_nomutilisateur b) \<and> \<not> truthy (c_motdepasse b) \<and> \<not> truthy (c_email b)"
    using that by (simp add: put_utilisateur_def)
  from 1 2 3 4 5 6 show ?thesis by blast
qed

theorem put_utilisateur_chaine_vide_witness:
  "c_nomutilisateur corps_nom_vide_email = Some [] \<and>
   omettre_vides corps_nom_vide_email = corps_email \<and>
   put_utilisateur argon2_jouet [] bdd_alice 1 corps_nom_vide_email =
     put_utilisateur argon2_jouet [] bdd_alice 1 corps_email \<and>
   construire_updates argon2_jouet [] corps_nom_vide_email = Some [(Email, ''new@x'')] \<and>
   map nomutilisateur
     (lignes (snd (put_utilisateur argon2_jouet [] bdd_alice 1 corps_nom_vide_email))) =
     [''alice''] \<and>
   put_utilisateur argon2_jouet [] bdd_alice 1 corps_nom_vide = (champ_requis, bdd_alice)"
proof -
  have v: "c_nomutilisateur corps_nom_vide_email = Some []"
    by (simp add: corps_nom_vide_email_def)
  have o: "omettre_vides corps_nom_vide_email = corps_email"
    by (simp add: omettre_vides_def corps_nom_vide_email_def corps_email_def)
  have u: "construire_updates argon2_jouet [] corps_nom_vide_email = Some [(Email, ''new@x'')]"
    by (simp add: construire_updates_def corps_nom_vide_email_def)
  have f: "\<not> truthy (c_nomutilisateur corps_nom_vide) \<and> \<not> truthy (c_motdepasse corps_nom_vide) \<and>
    \<not> truthy (c_email corps_nom_vide)"
    by (simp add: corps_nom_vide_def)
  have l: "map nomutilisateur (lignes bdd_alice) = [''alice'']"
    by (simp add: bdd_alice_def alice_def)
  note vide = put_utilisateur_chaine_vide [of argon2_jouet "[]" bdd_alice 1 corps_nom_vide_email]
  from vide have "put_utilisateur argon2_jouet [] bdd_alice 1 corps_nom_vide_email =
     put_utilisateur argon2_jouet [] bdd_alice 1 (omettre_vides corps_nom_vide_email)"
    by blast
  then have "put_utilisateur argon2_jouet [] bdd_alice 1 corps_nom_vide_email =
     put_utilisateur argon2_jouet [] bdd_alice 1 corps_email"
    by (simp only: o)
  moreover from vide v have "map nomutilisateur
     (lignes (snd (put_utilisateur argon2_jouet [] bdd_alice 1 corps_nom_vide_email))) =
     map nomutilisateur (lignes bdd_alice)"
    by blast
  then have "map nomutilisateur
     (lignes (snd (put_utilisateur argon2_jouet [] bdd_alice 1 corps_nom_vide_email))) =
     [''alice'']"
    by (simp only: l)
  moreover from put_utilisateur_chaine_vide [of argon2_jouet "[]" bdd_alice 1 corps_nom_vide] f
  have "put_utilisateur argon2_jouet [] bdd_alice 1 corps_nom_vide = (champ_requis, bdd_alice)"
    by blast
  ultimately show ?thesis using v o u by blast
qed

end
